theory Spec2Isabelle
  imports Main "HOL-Library.Word" "HOL-Library.Sublist"
begin

section \<open>Values shared by the input descriptor and the signing orchestrator\<close>

text \<open>
  A Node \<open>Buffer\<close> is a list of bytes, a derivation path an array of unsigned 32-bit
  integers. Everything the code throws is a value of \<open>error\<close>: \<open>assert\<close> throws an
  \<open>AssertionError\<close> with its message, \<open>throw new Error(m)\<close> an \<open>Error\<close>,
  \<open>throw new LedgerError(m)\<close> a \<open>LedgerError\<close>; reading a property of \<open>null\<close> or
  \<open>undefined\<close> throws a \<open>TypeError\<close>. \<open>External\<close> is whatever a collaborator
  (bcoin, bcrypto, the device driver) throws on its own.
\<close>

type_synonym bytes = "8 word list"

type_synonym path = "32 word list"

datatype error =
    AssertionError string
  | Error string
  | LedgerError string
  | TypeError string
  | External string

text \<open>bcoin's \<open>Outpoint\<close>: the hash of the previous transaction and an output index.\<close>

record outpoint =
  op_hash :: bytes
  op_index :: nat

text \<open>
  A bcoin \<open>Stack\<close> is a JavaScript array of buffers. \<open>Array.prototype.pop\<close> on an
  empty array returns \<open>undefined\<close>, so an item is a buffer or \<open>undefined\<close>. A script-sig
  and a witness are represented by the stack they hold: \<open>toStack\<close> copies it out,
  \<open>fromStack\<close> writes it back.
\<close>

datatype item = Undefined | Buffer bytes

type_synonym stack = "item list"

text \<open>bcoin's \<open>Coin\<close> (only its locking script is read) and \<open>KeyRing\<close>.\<close>

record 's coin =
  coin_script :: 's

record 's keyring =
  ring_publicKey :: bytes
  ring_script :: "'s option"
  ring_witness :: bool

text \<open>An input of the mutable transaction being signed, and the transaction itself.\<close>

record input =
  in_prevout :: outpoint
  in_script :: stack
  in_witness :: stack

record mtx =
  inputs :: "input list"
  outputs :: "bytes list"

text \<open>bcoin's \<open>HDPublicKey\<close>, as \<open>LedgerBcoin.getPublicKey\<close> fills it.\<close>

record hdkey =
  hd_depth :: nat
  hd_childIndex :: "32 word option"
  hd_parentFingerPrint :: nat
  hd_chainCode :: bytes
  hd_publicKey :: bytes

text \<open>
  The collaborators both files call and whose code is not part of the two files
  (bcoin's primitives, bcrypto's secp256k1 and the repository's \<open>utils/util\<close>) are
  parameters: \<open>'s\<close> is bcoin's \<open>Script\<close> (a locking or redeem script), \<open>'t\<close> bcoin's \<open>TX\<close>
  (a previous transaction). A collaborator that can throw returns \<open>error + _\<close>; one
  that answers \<open>null\<close> returns an option. \<open>Outpoint.fromTX\<close> and \<open>Coin.fromTX\<close> are handed
  \<open>this.tx\<close> as it is, \<open>null\<close> (\<open>None\<close>) included.
\<close>

record ('s, 't) prims =
  parsePath :: "string \<Rightarrow> error + path"
  TX_fromRaw :: "bytes \<Rightarrow> error + 't"
  Outpoint_fromTX :: "'t option \<Rightarrow> nat \<Rightarrow> error + outpoint"
  Outpoint_toKey :: "outpoint \<Rightarrow> string"
  output_script :: "'t \<Rightarrow> nat \<Rightarrow> 's option"
  Coin_fromTX :: "'t option \<Rightarrow> nat \<Rightarrow> nat \<Rightarrow> error + 's coin"
  KeyRing_fromPublic :: "bytes \<Rightarrow> error + 's keyring"
  isScripthash :: "'s \<Rightarrow> bool"
  isWitnessScripthash :: "'s \<Rightarrow> bool"
  getWitnessPubkeyhash :: "'s \<Rightarrow> bytes option"
  Script_fromPubkeyhash :: "bytes \<Rightarrow> 's"
  script_getRedeem :: "stack \<Rightarrow> 's option"
  witness_getRedeem :: "stack \<Rightarrow> 's option"
  scriptInput :: "mtx \<Rightarrow> nat option \<Rightarrow> 's coin \<Rightarrow> 's keyring \<Rightarrow> error + (bool \<times> mtx)"
  signVector :: "mtx \<Rightarrow> 's \<Rightarrow> stack \<Rightarrow> bytes \<Rightarrow> 's keyring \<Rightarrow> error + stack option"
  publicKeyConvert :: "bytes \<Rightarrow> error + bytes"
  HDPublicKey_new :: "hdkey \<Rightarrow> error + hdkey"

text \<open>\<open>Script.hashType.ALL\<close> of bcoin.\<close>

definition hashType_ALL :: int where
  "hashType_ALL = 1"

text \<open>Sequencing of fallible steps without state (the synchronous code of txinput.js).\<close>

definition assert :: "bool \<Rightarrow> string \<Rightarrow> error + unit" where
  "assert c msg = (if c then Inr () else Inl (AssertionError msg))"

definition bindE :: "error + 'a \<Rightarrow> ('a \<Rightarrow> error + 'b) \<Rightarrow> error + 'b" where
  "bindE m f = (case m of Inl e \<Rightarrow> Inl e | Inr a \<Rightarrow> f a)"

section \<open>txinput.js: the input descriptor\<close>

text \<open>
  \<open>LedgerTXInput\<close>: seven fields the constructor sets (\<open>li.path\<close> is \<open>li_path li\<close>) and five
  caches. The caches
  \<open>_ring\<close>, \<open>_coin\<close>, \<open>_key\<close>, \<open>_prev\<close>, \<open>_outpoint\<close> are written \<open>ring_cache\<close>,
  \<open>coin_cache\<close>, \<open>key_cache\<close>, \<open>prev_cache\<close>, \<open>outpoint_cache\<close> (an Isabelle name cannot
  start with an underscore).
  An empty cache is \<open>None\<close> (\<open>null\<close>, or \<open>undefined\<close> for \<open>_outpoint\<close>, which the
  constructor never assigns; the code only tests them for falsiness) and the empty
  string for \<open>_key\<close>.
\<close>

record ('s, 't) LedgerTXInput =
  li_path :: path
  li_tx :: "'t option"
  li_index :: nat
  li_witness :: bool
  li_redeem :: "'s option"
  li_type :: int
  li_publicKey :: "bytes option"
  ring_cache :: "'s keyring option"
  coin_cache :: "'s coin option"
  key_cache :: string
  prev_cache :: "'s option"
  outpoint_cache :: "outpoint option"

text \<open>
  The \<open>options\<close> object of \<open>fromOptions\<close>. JavaScript is untyped, so each property
  distinguishes the shapes the code tests for: a path is missing (\<open>undefined\<close>, \<open>null\<close>
  or another falsy value but the empty string), a string, an array, or some other truthy
  value; a transaction is missing (falsy), a buffer, a \<open>TX\<close>, or some other truthy value;
  an index is not of type number, an integer, or a number that is no integer (a fraction,
  \<open>NaN\<close>, an infinity); a type is \<open>null\<close> or \<open>undefined\<close> (\<open>None\<close>) or a number; a redeem
  script or public key is \<open>null\<close> or \<open>undefined\<close>, a \<open>Script\<close> (a \<open>Buffer\<close>), or something
  else; \<open>witness\<close> is \<open>null\<close> or \<open>undefined\<close> (\<open>None\<close>) or the truthiness of the value.
\<close>

datatype path_arg =
    PathMissing
  | PathString string
  | PathArray path
  | PathOther

datatype 't tx_arg =
    TxMissing
  | TxBuffer bytes
  | TxObject 't
  | TxOther

datatype index_arg =
    IndexNotNumber
  | IndexInt int
  | IndexNonInt

datatype 's redeem_arg =
    RedeemAbsent
  | RedeemScript 's
  | RedeemOther

datatype key_arg =
    KeyAbsent
  | KeyBuffer bytes
  | KeyOther

record ('s, 't) options =
  o_path :: path_arg
  o_tx :: "'t tx_arg"
  o_index :: index_arg
  o_type :: "int option"
  o_redeem :: "'s redeem_arg"
  o_publicKey :: key_arg
  o_witness :: "bool option"

text \<open>The constructor without options (lines 148-161).\<close>

definition new_LedgerTXInput :: "('s, 't) LedgerTXInput" where
  "new_LedgerTXInput =
     \<lparr> li_path = [], li_tx = None, li_index = 0, li_witness = False, li_redeem = None,
       li_type = hashType_ALL, li_publicKey = None,
       ring_cache = None, coin_cache = None, key_cache = [], prev_cache = None, outpoint_cache = None \<rparr>"

text \<open>
  \<open>assert(options.path)\<close>: a missing path and the empty string are falsy, every array and
  every other object is truthy.
\<close>

fun truthy_path :: "path_arg \<Rightarrow> bool" where
  "truthy_path PathMissing = False"
| "truthy_path (PathString s) = (s \<noteq> [])"
| "truthy_path (PathArray a) = True"
| "truthy_path PathOther = True"

text \<open>Lines 173-179: the path, parsed when it is a string.\<close>

definition set_path ::
  "('s, 't) prims \<Rightarrow> ('s, 't) LedgerTXInput \<Rightarrow> path_arg \<Rightarrow> error + ('s, 't) LedgerTXInput" where
  "set_path P this p =
     bindE (assert (truthy_path p) ''Path is required.'') (\<lambda>_.
     bindE (case p of PathString s \<Rightarrow> bindE (parsePath P s) (\<lambda>a. Inr (PathArray a))
                    | _ \<Rightarrow> Inr p) (\<lambda>p'.
     case p' of
       PathArray a \<Rightarrow> Inr (this\<lparr>li_path := a\<rparr>)
     | _ \<Rightarrow> Inl (AssertionError ''Path must be Array or string'')))"

text \<open>Lines 181-187: the previous transaction, parsed when it is a buffer.\<close>

definition set_tx ::
  "('s, 't) prims \<Rightarrow> ('s, 't) LedgerTXInput \<Rightarrow> 't tx_arg \<Rightarrow> error + ('s, 't) LedgerTXInput" where
  "set_tx P this t =
     bindE (assert (t \<noteq> TxMissing) ''Tx is required.'') (\<lambda>_.
     bindE (case t of TxBuffer raw \<Rightarrow> bindE (TX_fromRaw P raw) (\<lambda>x. Inr (TxObject x))
                    | _ \<Rightarrow> Inr t) (\<lambda>t'.
     case t' of
       TxObject x \<Rightarrow> Inr (this\<lparr>li_tx := Some x\<rparr>)
     | _ \<Rightarrow> Inl (AssertionError ''Cannot use non-transaction tx.'')))"

text \<open>
  \<open>isU32(value)\<close> is \<open>(value >>> 0) === value\<close>: \<open>>>> 0\<close> reduces an integer modulo
  \<open>2^32\<close> and maps every other number to an integer, so the test holds for the integers
  from 0 to \<open>2^32 - 1\<close> only.
\<close>

fun isU32 :: "index_arg \<Rightarrow> bool" where
  "isU32 (IndexInt v) = (v mod 2 ^ 32 = v)"
| "isU32 _ = False"

text \<open>Lines 189-191.\<close>

definition set_index ::
  "('s, 't) LedgerTXInput \<Rightarrow> index_arg \<Rightarrow> error + ('s, 't) LedgerTXInput" where
  "set_index this i =
     bindE (assert (i \<noteq> IndexNotNumber) ''Output index is required.'') (\<lambda>_.
     bindE (assert (isU32 i) ''Output index must be a uint32.'') (\<lambda>_.
     case i of
       IndexInt v \<Rightarrow> Inr (this\<lparr>li_index := nat v\<rparr>)
     | _ \<Rightarrow> Inr this))"

text \<open>Lines 193-199: the assertion holds when the type is \<^emph>\<open>not\<close> \<open>hashType.ALL\<close>.\<close>

definition set_type ::
  "('s, 't) LedgerTXInput \<Rightarrow> int option \<Rightarrow> error + ('s, 't) LedgerTXInput" where
  "set_type this ty =
     (case ty of
        None \<Rightarrow> Inr this
      | Some v \<Rightarrow>
          bindE (assert (v \<noteq> hashType_ALL) ''Ledger only supports SIGHASH_ALL'') (\<lambda>_.
          Inr (this\<lparr>li_type := v\<rparr>)))"

text \<open>Lines 201-204.\<close>

definition set_redeem ::
  "('s, 't) LedgerTXInput \<Rightarrow> 's redeem_arg \<Rightarrow> error + ('s, 't) LedgerTXInput" where
  "set_redeem this r =
     (case r of
        RedeemAbsent \<Rightarrow> Inr this
      | RedeemScript s \<Rightarrow> Inr (this\<lparr>li_redeem := Some s\<rparr>)
      | RedeemOther \<Rightarrow> Inl (AssertionError ''Cannot use non-script redeem.''))"

text \<open>Lines 206-210.\<close>

definition set_publicKey ::
  "('s, 't) LedgerTXInput \<Rightarrow> key_arg \<Rightarrow> error + ('s, 't) LedgerTXInput" where
  "set_publicKey this k =
     (case k of
        KeyAbsent \<Rightarrow> Inr this
      | KeyBuffer b \<Rightarrow> Inr (this\<lparr>li_publicKey := Some b\<rparr>)
      | KeyOther \<Rightarrow> Inl (AssertionError ''Cannot set non-buffer public key''))"

text \<open>Lines 212-213; \<open>Boolean(options.witness)\<close> is the truthiness the option carries.\<close>

definition set_witness ::
  "('s, 't) LedgerTXInput \<Rightarrow> bool option \<Rightarrow> ('s, 't) LedgerTXInput" where
  "set_witness this b = (case b of None \<Rightarrow> this | Some v \<Rightarrow> this\<lparr>li_witness := v\<rparr>)"

text \<open>
  \<open>fromOptions(options)\<close>, lines 171-216. \<open>None\<close> is a falsy \<open>options\<close>. An assertion
  that fails throws out of the method, and the object under construction is dropped.
\<close>

definition fromOptions ::
  "('s, 't) prims \<Rightarrow> ('s, 't) LedgerTXInput \<Rightarrow> ('s, 't) options option
     \<Rightarrow> error + ('s, 't) LedgerTXInput" where
  "fromOptions P this options =
     (case options of
        None \<Rightarrow> Inl (AssertionError ''SignInput data is required.'')
      | Some opts \<Rightarrow>
          bindE (set_path P this (o_path opts)) (\<lambda>this.
          bindE (set_tx P this (o_tx opts)) (\<lambda>this.
          bindE (set_index this (o_index opts)) (\<lambda>this.
          bindE (set_type this (o_type opts)) (\<lambda>this.
          bindE (set_redeem this (o_redeem opts)) (\<lambda>this.
          bindE (set_publicKey this (o_publicKey opts)) (\<lambda>this.
          Inr (set_witness this (o_witness opts)))))))))"

text \<open>The static \<open>LedgerTXInput.fromOptions(options)\<close>, lines 224-226.\<close>

definition static_fromOptions ::
  "('s, 't) prims \<Rightarrow> ('s, 't) options option \<Rightarrow> error + ('s, 't) LedgerTXInput" where
  "static_fromOptions P options = fromOptions P new_LedgerTXInput options"

text \<open>\<open>refresh()\<close>, lines 304-310.\<close>

definition refresh :: "('s, 't) LedgerTXInput \<Rightarrow> ('s, 't) LedgerTXInput" where
  "refresh this =
     this\<lparr> coin_cache := None, ring_cache := None, key_cache := [], prev_cache := None, outpoint_cache := None \<rparr>"

text \<open>
  The lazily computed values. Each getter returns the descriptor with its cache filled
  and the value. \<open>this.tx\<close> is \<open>null\<close> until \<open>fromOptions\<close> has run: \<open>getOutpoint\<close> and
  \<open>getCoin\<close> pass it to bcoin, which answers or throws, and \<open>getPrev\<close> reads
  \<open>this.tx.outputs\<close> itself, which throws a \<open>TypeError\<close> on \<open>null\<close>.
\<close>

definition getOutpoint ::
  "('s, 't) prims \<Rightarrow> ('s, 't) LedgerTXInput \<Rightarrow> error + (('s, 't) LedgerTXInput \<times> outpoint)" where
  "getOutpoint P this =
     (case outpoint_cache this of
        Some p \<Rightarrow> Inr (this, p)
      | None \<Rightarrow>
          bindE (Outpoint_fromTX P (li_tx this) (li_index this)) (\<lambda>p.
          Inr (this\<lparr>outpoint_cache := Some p\<rparr>, p)))"

definition toKey ::
  "('s, 't) prims \<Rightarrow> ('s, 't) LedgerTXInput \<Rightarrow> error + (('s, 't) LedgerTXInput \<times> string)" where
  "toKey P this =
     (if key_cache this = [] then
        bindE (getOutpoint P this) (\<lambda>(this, p).
        (let k = Outpoint_toKey P p in Inr (this\<lparr>key_cache := k\<rparr>, k)))
      else Inr (this, key_cache this))"

definition getPrev ::
  "('s, 't) prims \<Rightarrow> ('s, 't) LedgerTXInput \<Rightarrow> error + (('s, 't) LedgerTXInput \<times> 's)" where
  "getPrev P this =
     (case prev_cache this of
        Some s \<Rightarrow> Inr (this, s)
      | None \<Rightarrow>
          (case li_tx this of
             None \<Rightarrow> Inl (TypeError ''tx is null'')
           | Some t \<Rightarrow>
               (case output_script P t (li_index this) of
                  None \<Rightarrow> Inl (TypeError ''output is undefined'')
                | Some s \<Rightarrow> Inr (this\<lparr>prev_cache := Some s\<rparr>, s))))"

definition getCoin ::
  "('s, 't) prims \<Rightarrow> ('s, 't) LedgerTXInput \<Rightarrow> nat \<Rightarrow> error + (('s, 't) LedgerTXInput \<times> 's coin)" where
  "getCoin P this height =
     (case coin_cache this of
        Some c \<Rightarrow> Inr (this, c)
      | None \<Rightarrow>
          bindE (Coin_fromTX P (li_tx this) (li_index this) height) (\<lambda>c.
          Inr (this\<lparr>coin_cache := Some c\<rparr>, c)))"

definition getRing ::
  "('s, 't) prims \<Rightarrow> ('s, 't) LedgerTXInput \<Rightarrow> error + (('s, 't) LedgerTXInput \<times> 's keyring)" where
  "getRing P this =
     (case li_publicKey this of
        None \<Rightarrow> Inl (LedgerError ''Cannot return ring without public key'')
      | Some pk \<Rightarrow>
          (case ring_cache this of
             Some r \<Rightarrow> Inr (this, r)
           | None \<Rightarrow>
               bindE (KeyRing_fromPublic P pk) (\<lambda>r.
               (let r1 = (case li_redeem this of Some s \<Rightarrow> r\<lparr>ring_script := Some s\<rparr> | None \<Rightarrow> r);
                    r2 = (if li_witness this then r1\<lparr>ring_witness := True\<rparr> else r1)
                in Inr (this\<lparr>ring_cache := Some r2\<rparr>, r2)))))"

section \<open>bcoin.js: the signing orchestrator\<close>

text \<open>
  \<open>LedgerBTC\<close> (\<open>./ledger\<close>), the protocol driver, is not part of the two files: its
  methods are parameters. \<open>'d\<close> is the state of the device behind it; each method takes
  that state and returns the new one with its answer or the error it throws. The
  \<open>trustedInputs\<close> object is a map from outpoint keys to tokens.
\<close>

record ('s, 't, 'd) LedgerBTC =
  ledger_getPublicKey :: "path \<Rightarrow> nat \<Rightarrow> 'd \<Rightarrow> 'd \<times> (error + bytes \<times> bytes)"
  ledger_getTrustedInput :: "'t option \<Rightarrow> nat \<Rightarrow> 'd \<Rightarrow> 'd \<times> (error + bytes)"
  ledger_hashTransactionStart ::
    "mtx \<Rightarrow> (string \<rightharpoonup> bytes) \<Rightarrow> bool \<Rightarrow> bool \<Rightarrow> 'd \<Rightarrow> 'd \<times> (error + unit)"
  ledger_hashTransactionStartNullify ::
    "mtx \<Rightarrow> string \<Rightarrow> 's \<Rightarrow> (string \<rightharpoonup> bytes) \<Rightarrow> bool \<Rightarrow> bool \<Rightarrow> 'd \<Rightarrow> 'd \<times> (error + unit)"
  ledger_hashOutputFinalize :: "mtx \<Rightarrow> 'd \<Rightarrow> 'd \<times> (error + unit)"
  ledger_hashTransactionStartSegwit :: "mtx \<Rightarrow> string \<Rightarrow> 's \<Rightarrow> 'd \<Rightarrow> 'd \<times> (error + unit)"
  ledger_hashSign :: "mtx \<Rightarrow> path \<Rightarrow> int \<Rightarrow> 'd \<Rightarrow> 'd \<times> (error + bytes)"

text \<open>
  What a run does to the device is observed as the list of driver calls it issues, each
  with its arguments and with what the driver answered.
\<close>

datatype ('s, 't) call =
    GetPublicKey path nat
  | GetTrustedInput "'t option" nat
  | HashTransactionStart mtx "string \<rightharpoonup> bytes" bool bool
  | HashTransactionStartNullify mtx string 's "string \<rightharpoonup> bytes" bool bool
  | HashOutputFinalize mtx
  | HashTransactionStartSegwit mtx string 's
  | HashSign mtx path int

datatype reply =
    Threw error
  | Key bytes bytes
  | Bytes bytes
  | Void

text \<open>
  The state a \<open>LedgerBcoin\<close> instance works on: its \<open>signingTX\<close> flag, its \<open>txlock\<close>
  (bmutex's \<open>Lock\<close>: busy or free), its \<open>ledger\<close> (\<open>null\<close> until a device is set, together
  with \<open>device\<close>), and the heap of input descriptors. \<open>ledgerInputs\<close> is an array of
  references into that heap, so a descriptor that occurs twice in the array is one
  object.
\<close>

record ('s, 't, 'd) world =
  signingTX :: bool
  txlock :: bool
  ledger :: "'d option"
  heap :: "nat \<Rightarrow> ('s, 't) LedgerTXInput"

text \<open>
  An \<open>async\<close> method takes the state and returns the new state, the driver calls it
  issued, and its value or the error it throws. \<open>andThen\<close> is \<open>await\<close> followed by the
  rest of the method: an error ends the method there.
\<close>

type_synonym ('w, 'c, 'a) prog = "'w \<Rightarrow> 'w \<times> 'c list \<times> (error + 'a)"

definition ret :: "'a \<Rightarrow> ('w, 'c, 'a) prog" where
  "ret a w = (w, [], Inr a)"

definition throw :: "error \<Rightarrow> ('w, 'c, 'a) prog" where
  "throw e w = (w, [], Inl e)"

definition lift :: "error + 'a \<Rightarrow> ('w, 'c, 'a) prog" where
  "lift r w = (w, [], r)"

definition andThen :: "('w, 'c, 'a) prog \<Rightarrow> ('a \<Rightarrow> ('w, 'c, 'b) prog) \<Rightarrow> ('w, 'c, 'b) prog" where
  "andThen m f w =
     (case m w of
        (w1, cs1, Inl e) \<Rightarrow> (w1, cs1, Inl e)
      | (w1, cs1, Inr a) \<Rightarrow> (case f a w1 of (w2, cs2, r) \<Rightarrow> (w2, cs1 @ cs2, r)))"

definition state_of :: "'w \<times> 'c list \<times> (error + 'a) \<Rightarrow> 'w" where
  "state_of x = fst x"

definition calls_of :: "'w \<times> 'c list \<times> (error + 'a) \<Rightarrow> 'c list" where
  "calls_of x = fst (snd x)"

definition result_of :: "'w \<times> 'c list \<times> (error + 'a) \<Rightarrow> error + 'a" where
  "result_of x = snd (snd x)"

text \<open>A call of a driver method: \<open>this.ledger.m(...)\<close> throws when \<open>this.ledger\<close> is \<open>null\<close>.\<close>

definition ledger_call ::
  "('s, 't) call \<Rightarrow> ('a \<Rightarrow> reply) \<Rightarrow> ('d \<Rightarrow> 'd \<times> (error + 'a))
     \<Rightarrow> (('s, 't, 'd) world, ('s, 't) call \<times> reply, 'a) prog" where
  "ledger_call c rep f w =
     (case ledger w of
        None \<Rightarrow> (w, [], Inl (TypeError ''ledger is null''))
      | Some d \<Rightarrow>
          (case f d of
             (d', r) \<Rightarrow>
               (w\<lparr>ledger := Some d'\<rparr>,
                [(c, case r of Inl e \<Rightarrow> Threw e | Inr a \<Rightarrow> rep a)],
                r)))"

text \<open>A method of the descriptor behind reference \<open>li\<close>, with its cache written back.\<close>

definition on_input ::
  "nat \<Rightarrow> (('s, 't) LedgerTXInput \<Rightarrow> error + (('s, 't) LedgerTXInput \<times> 'a))
     \<Rightarrow> (('s, 't, 'd) world, ('s, 't) call \<times> reply, 'a) prog" where
  "on_input li f w =
     (case f (heap w li) of
        Inl e \<Rightarrow> (w, [], Inl e)
      | Inr (this, a) \<Rightarrow> (w\<lparr>heap := (heap w)(li := this)\<rparr>, [], Inr a))"

text \<open>Reading the descriptor behind \<open>li\<close>, and the assignment \<open>li.publicKey = ...\<close>.\<close>

definition read_input ::
  "nat \<Rightarrow> (('s, 't) LedgerTXInput \<Rightarrow> (('s, 't, 'd) world, ('s, 't) call \<times> reply, 'a) prog)
     \<Rightarrow> (('s, 't, 'd) world, ('s, 't) call \<times> reply, 'a) prog" where
  "read_input li f w = f (heap w li) w"

definition assign_publicKey ::
  "nat \<Rightarrow> bytes \<Rightarrow> (('s, 't, 'd) world, ('s, 't) call \<times> reply, unit) prog" where
  "assign_publicKey li pk w =
     (w\<lparr>heap := (heap w)(li := (heap w li)\<lparr>li_publicKey := Some pk\<rparr>)\<rparr>, [], Inr ())"

text \<open>The assignment \<open>this.signingTX = ...\<close>, and \<open>assert(this.device)\<close>.\<close>

definition assign_signingTX ::
  "bool \<Rightarrow> (('s, 't, 'd) world, ('s, 't) call \<times> reply, unit) prog" where
  "assign_signingTX b w = (w\<lparr>signingTX := b\<rparr>, [], Inr ())"

definition assert_device :: "(('s, 't, 'd) world, ('s, 't) call \<times> reply, unit) prog" where
  "assert_device w = (w, [], assert (ledger w \<noteq> None) ''this.device'')"

text \<open>
  \<open>getPublicKey(path, addressFlags)\<close>, lines 81-103, for a path that is an array (the
  path of a descriptor is one): \<open>assert(path)\<close> and \<open>assert(Array.isArray(path))\<close> hold, and
  \<open>indexes[indexes.length - 1]\<close> is \<open>undefined\<close> for the empty array.
\<close>

definition getPublicKey ::
  "('s, 't) prims \<Rightarrow> ('s, 't, 'd) LedgerBTC \<Rightarrow> path \<Rightarrow> nat
     \<Rightarrow> (('s, 't, 'd) world, ('s, 't) call \<times> reply, hdkey) prog" where
  "getPublicKey P L indexes addressFlags =
     andThen assert_device (\<lambda>_.
     andThen (ledger_call (GetPublicKey indexes addressFlags) (\<lambda>(k, c). Key k c)
                (ledger_getPublicKey L indexes addressFlags)) (\<lambda>(rawPubkey, chainCode).
     andThen (lift (publicKeyConvert P rawPubkey)) (\<lambda>compressedPubkey.
     lift (HDPublicKey_new P
       \<lparr> hd_depth = length indexes,
         hd_childIndex = (if indexes = [] then None else Some (last indexes)),
         hd_parentFingerPrint = 0,
         hd_chainCode = chainCode,
         hd_publicKey = compressedPubkey \<rparr>))))"

text \<open>Lines 147-153: the public key of every descriptor that has none.\<close>

fun updatePublicKeys ::
  "('s, 't) prims \<Rightarrow> ('s, 't, 'd) LedgerBTC \<Rightarrow> nat list
     \<Rightarrow> (('s, 't, 'd) world, ('s, 't) call \<times> reply, unit) prog" where
  "updatePublicKeys P L [] = ret ()"
| "updatePublicKeys P L (li # ledgerInputs) =
     andThen
       (read_input li (\<lambda>this.
          if li_publicKey this = None then
            andThen (getPublicKey P L (li_path this) 0) (\<lambda>hd.
            assign_publicKey li (hd_publicKey hd))
          else ret ()))
       (\<lambda>_. updatePublicKeys P L ledgerInputs)"

text \<open>
  Lines 155-169: the trusted inputs. A witness descriptor sets \<open>hasWitness\<close> and is
  skipped, a descriptor with a redeem script is skipped, every other one asks the device
  and stores the token under its key.
\<close>

fun collectTrustedInputs ::
  "('s, 't) prims \<Rightarrow> ('s, 't, 'd) LedgerBTC \<Rightarrow> nat list \<Rightarrow> (string \<rightharpoonup> bytes) \<Rightarrow> bool
     \<Rightarrow> (('s, 't, 'd) world, ('s, 't) call \<times> reply, (string \<rightharpoonup> bytes) \<times> bool) prog" where
  "collectTrustedInputs P L [] trustedInputs hasWitness = ret (trustedInputs, hasWitness)"
| "collectTrustedInputs P L (li # ledgerInputs) trustedInputs hasWitness =
     read_input li (\<lambda>this.
       if li_witness this then
         collectTrustedInputs P L ledgerInputs trustedInputs True
       else if li_redeem this \<noteq> None then
         collectTrustedInputs P L ledgerInputs trustedInputs hasWitness
       else
         andThen (on_input li (toKey P)) (\<lambda>pokey.
         andThen (read_input li (\<lambda>this.
                    ledger_call (GetTrustedInput (li_tx this) (li_index this)) Bytes
                      (ledger_getTrustedInput L (li_tx this) (li_index this))))
           (\<lambda>trustedInput.
         collectTrustedInputs P L ledgerInputs (trustedInputs(pokey \<mapsto> trustedInput))
           hasWitness)))"

text \<open>Lines 171-176: the index of every input of the transaction, by the key of its prevout.\<close>

definition findIndexes :: "('s, 't) prims \<Rightarrow> mtx \<Rightarrow> (string \<rightharpoonup> nat)" where
  "findIndexes P tx =
     fold (\<lambda>(i, input) txIndexByKey. txIndexByKey(Outpoint_toKey P (in_prevout input) \<mapsto> i))
       (enumerate 0 (inputs tx)) Map.empty"

text \<open>
  Lines 178-186: with a witness descriptor the whole transaction is loaded once, and the
  per-input passes continue it (\<open>newtx = false\<close>); the value is \<open>newtx\<close>.
\<close>

definition primeWitness ::
  "('s, 't, 'd) LedgerBTC \<Rightarrow> mtx \<Rightarrow> bool
     \<Rightarrow> (('s, 't, 'd) world, ('s, 't) call \<times> reply, bool) prog" where
  "primeWitness L tx hasWitness =
     (if hasWitness then
        andThen (ledger_call (HashTransactionStart tx Map.empty True True) (\<lambda>_. Void)
                   (ledger_hashTransactionStart L tx Map.empty True True)) (\<lambda>_.
        andThen (ledger_call (HashOutputFinalize tx) (\<lambda>_. Void)
                   (ledger_hashOutputFinalize L tx)) (\<lambda>_.
        ret False))
      else ret True)"

text \<open>
  \<open>signInput\<close>, lines 224-261: which script is presented to the device, which vector of
  the input receives the signature, and the \<open>redeem\<close> and \<open>witness\<close> flags.
\<close>

datatype vector = ScriptSig | Witness

record 's variant =
  v_prev :: 's
  v_vector :: vector
  v_redeem :: bool
  v_witness :: bool

definition classify :: "('s, 't) prims \<Rightarrow> 's \<Rightarrow> input \<Rightarrow> error + 's variant" where
  "classify P script input =
     bindE
       (if isScripthash P script then
          (case script_getRedeem P (in_script input) of
             None \<Rightarrow> Inl (Error ''Redeem Script not found'')
           | Some r \<Rightarrow> Inr (r, True))
        else Inr (script, False)) (\<lambda>(prev, redeem).
     if isWitnessScripthash P prev then
       (case witness_getRedeem P (in_witness input) of
          None \<Rightarrow> Inl (Error ''Input has not been templated.'')
        | Some r \<Rightarrow> Inr \<lparr> v_prev = r, v_vector = Witness, v_redeem = True, v_witness = True \<rparr>)
     else
       (case getWitnessPubkeyhash P prev of
          Some wpkh \<Rightarrow>
            Inr \<lparr> v_prev = Script_fromPubkeyhash P wpkh, v_vector = Witness,
                  v_redeem = False, v_witness = True \<rparr>
        | None \<Rightarrow>
            Inr \<lparr> v_prev = prev, v_vector = ScriptSig, v_redeem = redeem, v_witness = False \<rparr>))"

text \<open>Reading and writing the chosen vector of input \<open>i\<close>.\<close>

definition toStack :: "vector \<Rightarrow> input \<Rightarrow> stack" where
  "toStack v input = (case v of ScriptSig \<Rightarrow> in_script input | Witness \<Rightarrow> in_witness input)"

definition fromStack :: "vector \<Rightarrow> stack \<Rightarrow> input \<Rightarrow> input" where
  "fromStack v result input =
     (case v of
        ScriptSig \<Rightarrow> input\<lparr>in_script := result\<rparr>
      | Witness \<Rightarrow> input\<lparr>in_witness := result\<rparr>)"

text \<open>\<open>stack.pop()\<close>: the last item, \<open>undefined\<close> on an empty stack, and what is left.\<close>

definition pop :: "stack \<Rightarrow> item \<times> stack" where
  "pop s = (if s = [] then (Undefined, []) else (last s, butlast s))"

text \<open>
  Lines 284-308: the signature is folded into the vector. When \<open>signVector\<close> answers
  \<open>null\<close> the method returns \<open>false\<close> and the vector is left as it was.
\<close>

definition foldSignature ::
  "('s, 't) prims \<Rightarrow> mtx \<Rightarrow> nat \<Rightarrow> 's variant \<Rightarrow> bytes \<Rightarrow> 's keyring \<Rightarrow> error + (bool \<times> mtx)" where
  "foldSignature P tx i c sig ring =
     (if v_redeem c then
        (case pop (toStack (v_vector c) (inputs tx ! i)) of
           (redeem, stack) \<Rightarrow>
             bindE (signVector P tx (v_prev c) stack sig ring) (\<lambda>result.
             case result of
               None \<Rightarrow> Inr (False, tx)
             | Some res \<Rightarrow>
                 Inr (True, tx\<lparr>inputs := (inputs tx)
                                [i := fromStack (v_vector c) (res @ [redeem]) (inputs tx ! i)]\<rparr>)))
      else
        bindE (signVector P tx (v_prev c) (toStack (v_vector c) (inputs tx ! i)) sig ring)
          (\<lambda>result.
        case result of
          None \<Rightarrow> Inr (False, tx)
        | Some res \<Rightarrow>
            Inr (True, tx\<lparr>inputs := (inputs tx)
                           [i := fromStack (v_vector c) res (inputs tx ! i)]\<rparr>)))"

text \<open>
  \<open>tx.inputs[index]\<close> is \<open>undefined\<close> when \<open>index\<close> is \<open>undefined\<close> or out of range;
  reading \<open>input.script\<close> then throws.
\<close>

definition input_at :: "mtx \<Rightarrow> nat option \<Rightarrow> error + nat" where
  "input_at tx index =
     (case index of
        None \<Rightarrow> Inl (TypeError ''input is undefined'')
      | Some i \<Rightarrow> if i < length (inputs tx) then Inr i else Inl (TypeError ''input is undefined''))"

text \<open>The hashing pass of lines 263-276.\<close>

definition hashInput ::
  "('s, 't, 'd) LedgerBTC \<Rightarrow> mtx \<Rightarrow> string \<Rightarrow> 's variant \<Rightarrow> (string \<rightharpoonup> bytes) \<Rightarrow> bool
     \<Rightarrow> (('s, 't, 'd) world, ('s, 't) call \<times> reply, unit) prog" where
  "hashInput L tx inputKey c trustedInputs isNew =
     (if \<not> v_witness c then
        andThen (ledger_call
                   (HashTransactionStartNullify tx inputKey (v_prev c) trustedInputs isNew
                      (v_witness c)) (\<lambda>_. Void)
                   (ledger_hashTransactionStartNullify L tx inputKey (v_prev c) trustedInputs
                      isNew (v_witness c))) (\<lambda>_.
        ledger_call (HashOutputFinalize tx) (\<lambda>_. Void) (ledger_hashOutputFinalize L tx))
      else
        ledger_call (HashTransactionStartSegwit tx inputKey (v_prev c)) (\<lambda>_. Void)
          (ledger_hashTransactionStartSegwit L tx inputKey (v_prev c)))"

text \<open>
  \<open>signInput(tx, ledgerInput, trustedInputs, index, isNew)\<close>, lines 213-309, in three
  parts. Lines 214-261 call no driver method: the key, the ring and the coin of the
  descriptor, the templating of the input, and its classification. \<open>scriptInput\<close>
  templates the input in place, so the \<open>input\<close> fetched in line 214 is read after it at
  the same index.
\<close>

definition templateInput ::
  "('s, 't) prims \<Rightarrow> mtx \<Rightarrow> nat \<Rightarrow> nat option
     \<Rightarrow> (('s, 't, 'd) world, ('s, 't) call \<times> reply,
          string \<times> 's keyring \<times> 's coin \<times> mtx \<times> nat \<times> 's variant) prog" where
  "templateInput P tx ledgerInput index =
     andThen (on_input ledgerInput (toKey P)) (\<lambda>inputKey.
     andThen (on_input ledgerInput (getRing P)) (\<lambda>ring.
     andThen (on_input ledgerInput (\<lambda>this. getCoin P this 0)) (\<lambda>coin.
     andThen (lift (scriptInput P tx index coin ring)) (\<lambda>(templated, tx).
     andThen (if templated then ret () else throw (Error ''Could not template input'')) (\<lambda>_.
     andThen (lift (input_at tx index)) (\<lambda>i.
     andThen (lift (classify P (coin_script coin) (inputs tx ! i))) (\<lambda>c.
     ret (inputKey, ring, coin, tx, i, c))))))))"

text \<open>Lines 278-282: the signature the device gives for the input just hashed.\<close>

definition hashSign ::
  "('s, 't, 'd) LedgerBTC \<Rightarrow> mtx \<Rightarrow> nat
     \<Rightarrow> (('s, 't, 'd) world, ('s, 't) call \<times> reply, bytes) prog" where
  "hashSign L tx ledgerInput =
     read_input ledgerInput (\<lambda>this.
       ledger_call (HashSign tx (li_path this) (li_type this)) Bytes
         (ledger_hashSign L tx (li_path this) (li_type this)))"

text \<open>
  Lines 214-282, all that \<open>signInput\<close> does before the fold: templating and
  classification, the hashing pass, and the signature. The value is what the fold works
  on: the ring, the coin, the templated transaction, the index of the input, its
  classification, and the signature.
\<close>

definition requestSignature ::
  "('s, 't) prims \<Rightarrow> ('s, 't, 'd) LedgerBTC \<Rightarrow> mtx \<Rightarrow> nat \<Rightarrow> (string \<rightharpoonup> bytes) \<Rightarrow> nat option
     \<Rightarrow> bool
     \<Rightarrow> (('s, 't, 'd) world, ('s, 't) call \<times> reply,
          's keyring \<times> 's coin \<times> mtx \<times> nat \<times> 's variant \<times> bytes) prog" where
  "requestSignature P L tx ledgerInput trustedInputs index isNew =
     andThen (templateInput P tx ledgerInput index) (\<lambda>(inputKey, ring, coin, tx, i, c).
     andThen (hashInput L tx inputKey c trustedInputs isNew) (\<lambda>_.
     andThen (hashSign L tx ledgerInput) (\<lambda>sig.
     ret (ring, coin, tx, i, c, sig))))"

text \<open>
  Lines 213-309: the steps above, then the fold of lines 284-308. The value is the
  boolean the method returns, with the transaction as the method left it. The
  transaction is the caller's object, changed in place; a method that throws ends the
  run, and what it had changed by then is not part of the model.
\<close>

definition signInput ::
  "('s, 't) prims \<Rightarrow> ('s, 't, 'd) LedgerBTC \<Rightarrow> mtx \<Rightarrow> nat \<Rightarrow> (string \<rightharpoonup> bytes) \<Rightarrow> nat option
     \<Rightarrow> bool \<Rightarrow> (('s, 't, 'd) world, ('s, 't) call \<times> reply, bool \<times> mtx) prog" where
  "signInput P L tx ledgerInput trustedInputs index isNew =
     andThen (requestSignature P L tx ledgerInput trustedInputs index isNew)
       (\<lambda>(ring, coin, tx, i, c, sig).
     lift (foldSignature P tx i c sig ring))"

text \<open>
  Lines 188-194: every descriptor in the order supplied. The boolean \<open>signInput\<close> returns
  is not read.
\<close>

fun signInputs ::
  "('s, 't) prims \<Rightarrow> ('s, 't, 'd) LedgerBTC \<Rightarrow> nat list \<Rightarrow> (string \<rightharpoonup> bytes)
     \<Rightarrow> (string \<rightharpoonup> nat) \<Rightarrow> bool \<Rightarrow> mtx
     \<Rightarrow> (('s, 't, 'd) world, ('s, 't) call \<times> reply, mtx) prog" where
  "signInputs P L [] trustedInputs txIndexByKey newtx tx = ret tx"
| "signInputs P L (li # ledgerInputs) trustedInputs txIndexByKey newtx tx =
     andThen (on_input li (toKey P)) (\<lambda>pokey.
     andThen (signInput P L tx li trustedInputs (txIndexByKey pokey) newtx) (\<lambda>(signed, tx).
     signInputs P L ledgerInputs trustedInputs txIndexByKey False tx))"

text \<open>
  \<open>_signTransaction(tx, ledgerInputs)\<close>, lines 137-199. The argument is an \<open>MTX\<close> or
  something else.
\<close>

datatype txval = NonMTX | MTX mtx

definition inner_signTransaction ::
  "('s, 't) prims \<Rightarrow> ('s, 't, 'd) LedgerBTC \<Rightarrow> txval \<Rightarrow> nat list
     \<Rightarrow> (('s, 't, 'd) world, ('s, 't) call \<times> reply, mtx) prog" where
  "inner_signTransaction P L txv ledgerInputs =
     (case txv of
        NonMTX \<Rightarrow> throw (AssertionError ''Cannot use non-MTX tx for signing'')
      | MTX tx \<Rightarrow>
          andThen (assign_signingTX True) (\<lambda>_.
          andThen (updatePublicKeys P L ledgerInputs) (\<lambda>_.
          andThen (collectTrustedInputs P L ledgerInputs Map.empty False)
            (\<lambda>(trustedInputs, hasWitness).
          andThen (primeWitness L tx hasWitness) (\<lambda>newtx.
          andThen (signInputs P L ledgerInputs trustedInputs (findIndexes P tx) newtx tx) (\<lambda>tx.
          andThen (assign_signingTX False) (\<lambda>_.
          ret tx)))))))"

text \<open>
  \<open>signTransaction(tx, ledgerInputs)\<close>, lines 117-125. \<open>await this.txlock.lock()\<close> resolves
  at once on a free lock and marks it busy; on a busy lock the caller is queued until
  the holder unlocks, so in a sequential run the call does not proceed: \<open>None\<close>. The
  \<open>finally\<close> block runs \<open>unlock()\<close> on both exits of the \<open>try\<close> block, and with no caller
  queued \<open>unlock()\<close> frees the lock.
\<close>

definition signTransaction ::
  "('s, 't) prims \<Rightarrow> ('s, 't, 'd) LedgerBTC \<Rightarrow> txval \<Rightarrow> nat list \<Rightarrow> ('s, 't, 'd) world
     \<Rightarrow> (('s, 't, 'd) world \<times> (('s, 't) call \<times> reply) list \<times> (error + mtx)) option" where
  "signTransaction P L txv ledgerInputs w =
     (if txlock w then None
      else
        (case inner_signTransaction P L txv ledgerInputs (w\<lparr>txlock := True\<rparr>) of
           (w', cs, r) \<Rightarrow> Some (w'\<lparr>txlock := False\<rparr>, cs, r)))"

section \<open>What is observed of a run\<close>

text \<open>
  The per-input hashing passes among the calls of a run, in the order issued: a
  \<open>hashTransactionStartNullify\<close> call with the \<open>isNew\<close> flag it was passed, or a
  \<open>hashTransactionStartSegwit\<close> call.
\<close>

datatype pass = Nullify bool | Segwit

fun pass_of :: "('s, 't) call \<Rightarrow> pass option" where
  "pass_of (HashTransactionStartNullify tx k prev ti isNew w) = Some (Nullify isNew)"
| "pass_of (HashTransactionStartSegwit tx k prev) = Some Segwit"
| "pass_of _ = None"

definition passes :: "(('s, 't) call \<times> reply) list \<Rightarrow> pass list" where
  "passes cs = List.map_filter (\<lambda>(c, r). pass_of c) cs"

text \<open>The \<open>isNew\<close> flags of the \<open>hashTransactionStartNullify\<close> calls, in the order issued.\<close>

definition nullify_flags :: "(('s, 't) call \<times> reply) list \<Rightarrow> bool list" where
  "nullify_flags cs =
     List.map_filter (\<lambda>p. case p of Nullify b \<Rightarrow> Some b | Segwit \<Rightarrow> None) (passes cs)"

text \<open>The \<open>trustedInputs\<close> object each \<open>hashTransactionStartNullify\<close> call was passed.\<close>

fun nullify_trusted :: "('s, 't) call \<Rightarrow> (string \<rightharpoonup> bytes) option" where
  "nullify_trusted (HashTransactionStartNullify tx k prev ti isNew w) = Some ti"
| "nullify_trusted _ = None"

text \<open>The kinds of driver calls.\<close>

fun is_getPublicKey :: "('s, 't) call \<Rightarrow> bool" where
  "is_getPublicKey (GetPublicKey p fl) = True"
| "is_getPublicKey _ = False"

fun is_getTrustedInput :: "('s, 't) call \<Rightarrow> bool" where
  "is_getTrustedInput (GetTrustedInput t i) = True"
| "is_getTrustedInput _ = False"

fun is_hashTransactionStart :: "('s, 't) call \<Rightarrow> bool" where
  "is_hashTransactionStart (HashTransactionStart tx ti isNew w) = True"
| "is_hashTransactionStart _ = False"

fun is_per_input :: "('s, 't) call \<Rightarrow> bool" where
  "is_per_input (HashTransactionStartNullify tx k prev ti isNew w) = True"
| "is_per_input (HashTransactionStartSegwit tx k prev) = True"
| "is_per_input (HashOutputFinalize tx) = True"
| "is_per_input (HashSign tx p ty) = True"
| "is_per_input _ = False"

text \<open>
  The \<open>getTrustedInput\<close> calls of a run: the previous transaction and output index each
  was passed, and the tokens the device answered.
\<close>

fun trusted_of :: "('s, 't) call \<times> reply \<Rightarrow> ('t option \<times> nat) option" where
  "trusted_of (GetTrustedInput t i, r) = Some (t, i)"
| "trusted_of _ = None"

fun token_of :: "('s, 't) call \<times> reply \<Rightarrow> bytes option" where
  "token_of (GetTrustedInput t i, Bytes b) = Some b"
| "token_of _ = None"

definition trusted_calls :: "(('s, 't) call \<times> reply) list \<Rightarrow> ('t option \<times> nat) list" where
  "trusted_calls cs = List.map_filter trusted_of cs"

definition tokens :: "(('s, 't) call \<times> reply) list \<Rightarrow> bytes list" where
  "tokens cs = List.map_filter token_of cs"

text \<open>
  The descriptors of \<open>ledgerInputs\<close> that are neither witness inputs nor carry a redeem
  script, whether some descriptor is a witness input, and the key \<open>toKey()\<close> answers for
  a descriptor (the empty string stands in where \<open>toKey()\<close> throws).
\<close>

definition plain_inputs :: "(nat \<Rightarrow> ('s, 't) LedgerTXInput) \<Rightarrow> nat list \<Rightarrow> nat list" where
  "plain_inputs h ledgerInputs =
     filter (\<lambda>li. \<not> li_witness (h li) \<and> li_redeem (h li) = None) ledgerInputs"

definition any_witness :: "(nat \<Rightarrow> ('s, 't) LedgerTXInput) \<Rightarrow> nat list \<Rightarrow> bool" where
  "any_witness h ledgerInputs = (\<exists>li \<in> set ledgerInputs. li_witness (h li))"

definition key_of :: "('s, 't) prims \<Rightarrow> ('s, 't) LedgerTXInput \<Rightarrow> string" where
  "key_of P this = (case toKey P this of Inl e \<Rightarrow> [] | Inr (this', k) \<Rightarrow> k)"

definition has_key :: "('s, 't) prims \<Rightarrow> ('s, 't) LedgerTXInput \<Rightarrow> bool" where
  "has_key P this = (case toKey P this of Inl e \<Rightarrow> False | Inr (this', k) \<Rightarrow> True)"

text \<open>
  The \<open>getTrustedInput\<close> calls a run owes: one for each such descriptor, in the order
  supplied, with the descriptor's previous transaction and output index.
\<close>

definition wanted_calls ::
  "(nat \<Rightarrow> ('s, 't) LedgerTXInput) \<Rightarrow> nat list \<Rightarrow> ('t option \<times> nat) list" where
  "wanted_calls h ledgerInputs =
     map (\<lambda>li. (li_tx (h li), li_index (h li))) (plain_inputs h ledgerInputs)"

text \<open>
  The \<open>trustedInputs\<close> object after tokens \<open>toks\<close> were stored for those descriptors in
  turn: a later descriptor with the same key overwrites the entry of an earlier one.
\<close>

definition cached_tokens ::
  "('s, 't) prims \<Rightarrow> (nat \<Rightarrow> ('s, 't) LedgerTXInput) \<Rightarrow> nat list \<Rightarrow> bytes list
     \<Rightarrow> (string \<rightharpoonup> bytes)" where
  "cached_tokens P h ledgerInputs toks =
     map_of (rev (zip (map (\<lambda>li. key_of P (h li)) (plain_inputs h ledgerInputs)) toks))"

text \<open>
  What a run never writes in a descriptor: the constructor fields other than
  \<open>publicKey\<close>, the key \<open>toKey()\<close> answers, and whether it answers one.
\<close>

definition static ::
  "('s, 't) prims \<Rightarrow> ('s, 't) LedgerTXInput
     \<Rightarrow> path \<times> 't option \<times> nat \<times> bool \<times> 's option \<times> int \<times> string \<times> bool" where
  "static P this =
     (li_path this, li_tx this, li_index this, li_witness this, li_redeem this, li_type this,
      key_of P this, has_key P this)"

definition statics ::
  "('s, 't) prims \<Rightarrow> ('s, 't, 'd) world
     \<Rightarrow> nat \<Rightarrow> path \<times> 't option \<times> nat \<times> bool \<times> 's option \<times> int \<times> string \<times> bool" where
  "statics P w = (\<lambda>li. static P (heap w li))"

text \<open>Properties of a step, used to state what the steps of a run have in common.\<close>

text \<open>\<open>keeps g m\<close>: running \<open>m\<close> does not change the part \<open>g\<close> of the state.\<close>

definition keeps :: "('w \<Rightarrow> 'x) \<Rightarrow> ('w, 'c, 'a) prog \<Rightarrow> bool" where
  "keeps g m \<longleftrightarrow> (\<forall>w. g (state_of (m w)) = g w)"

text \<open>A function of the state that does not look at the device or at the descriptors.\<close>

definition flag_only :: "(('s, 't, 'd) world \<Rightarrow> 'x) \<Rightarrow> bool" where
  "flag_only g \<longleftrightarrow> (\<forall>w d. g (w\<lparr>ledger := d\<rparr>) = g w) \<and> (\<forall>w h. g (w\<lparr>heap := h\<rparr>) = g w)"

text \<open>\<open>only p m\<close>: every driver call \<open>m\<close> issues satisfies \<open>p\<close>.\<close>

definition only :: "('c \<Rightarrow> bool) \<Rightarrow> ('w, 'c \<times> 'r, 'a) prog \<Rightarrow> bool" where
  "only p m \<longleftrightarrow> (\<forall>w. list_all p (map fst (calls_of (m w))))"

text \<open>
  The inputs of the redeem case, read off the previous output's script and the templated
  input. The script that decides is the previous output's, or the redeem script in the
  script-sig when that output is pay-to-script-hash. The input is witness-P2SH when the
  deciding script is a witness script-hash program (bare, or nested in P2SH); it is P2SH
  when the previous output is pay-to-script-hash and the redeem script is no witness
  program. A witness-pubkey-hash program, bare or nested, is not of the redeem case.
\<close>

definition deciding_script :: "('s, 't) prims \<Rightarrow> 's \<Rightarrow> input \<Rightarrow> 's option" where
  "deciding_script P script input =
     (if isScripthash P script then script_getRedeem P (in_script input) else Some script)"

definition witness_p2sh :: "('s, 't) prims \<Rightarrow> 's \<Rightarrow> input \<Rightarrow> bool" where
  "witness_p2sh P script input =
     (case deciding_script P script input of
        None \<Rightarrow> False
      | Some prev \<Rightarrow> isWitnessScripthash P prev)"

definition plain_p2sh :: "('s, 't) prims \<Rightarrow> 's \<Rightarrow> input \<Rightarrow> bool" where
  "plain_p2sh P script input =
     (isScripthash P script \<and>
      (case script_getRedeem P (in_script input) of
         None \<Rightarrow> False
       | Some prev \<Rightarrow> \<not> isWitnessScripthash P prev \<and> getWitnessPubkeyhash P prev = None))"

definition redeem_case :: "('s, 't) prims \<Rightarrow> 's \<Rightarrow> input \<Rightarrow> bool" where
  "redeem_case P script input \<longleftrightarrow> plain_p2sh P script input \<or> witness_p2sh P script input"

section \<open>A simulated device and simplified primitives\<close>

text \<open>
  Concrete collaborators on which the model runs. Scripts are the four shapes the
  orchestrator distinguishes and a raw script for everything else; a previous
  transaction is its hash and the locking scripts of its outputs. Templating and folding
  follow bcoin's for a pay-to-pubkey-hash and a pay-to-script-hash output: an input that
  already carries a script or a witness counts as templated, a key that does not match
  is refused. A redeem script whose first byte is 0 is a witness script-hash program.
\<close>

datatype script =
    Pubkeyhash bytes
  | Scripthash bytes
  | WitnessScripthash bytes
  | WitnessPubkeyhash bytes
  | Raw bytes

record ptx =
  ptx_hash :: bytes
  ptx_outputs :: "script list"

definition sim_getRedeem :: "stack \<Rightarrow> script option" where
  "sim_getRedeem s =
     (if s = [] then None
      else (case last s of Undefined \<Rightarrow> None | Buffer b \<Rightarrow> Some (Raw b)))"

definition sim_script_getRedeem :: "stack \<Rightarrow> script option" where
  "sim_script_getRedeem s =
     (if s = [] then None
      else (case last s of
              Undefined \<Rightarrow> None
            | Buffer b \<Rightarrow>
                (case b of
                   [] \<Rightarrow> Some (Raw b)
                 | x # h \<Rightarrow> if x = 0 then Some (WitnessScripthash h) else Some (Raw b))))"

definition sim_template :: "script \<Rightarrow> script keyring \<Rightarrow> input \<Rightarrow> input option" where
  "sim_template prev ring input =
     (case prev of
        Pubkeyhash h \<Rightarrow>
          if h = ring_publicKey ring
          then Some (input\<lparr>in_script := [Buffer [], Buffer (ring_publicKey ring)]\<rparr>)
          else None
      | WitnessPubkeyhash h \<Rightarrow>
          if h = ring_publicKey ring
          then Some (input\<lparr>in_witness := [Buffer [], Buffer (ring_publicKey ring)]\<rparr>)
          else None
      | Scripthash h \<Rightarrow>
          (case ring_script ring of
             Some (Raw r) \<Rightarrow> Some (input\<lparr>in_script := [Buffer [], Buffer r]\<rparr>)
           | _ \<Rightarrow> None)
      | _ \<Rightarrow> None)"

definition sim_scriptInput ::
  "mtx \<Rightarrow> nat option \<Rightarrow> script coin \<Rightarrow> script keyring \<Rightarrow> error + (bool \<times> mtx)" where
  "sim_scriptInput tx index coin ring =
     (case index of
        None \<Rightarrow> Inl (AssertionError ''Input does not exist.'')
      | Some i \<Rightarrow>
          if length (inputs tx) \<le> i then Inl (AssertionError ''Input does not exist.'')
          else if in_script (inputs tx ! i) \<noteq> [] \<or> in_witness (inputs tx ! i) \<noteq> []
          then Inr (True, tx)
          else
            (case sim_template (coin_script coin) ring (inputs tx ! i) of
               None \<Rightarrow> Inr (False, tx)
             | Some input \<Rightarrow> Inr (True, tx\<lparr>inputs := (inputs tx)[i := input]\<rparr>)))"

definition sim_signVector ::
  "mtx \<Rightarrow> script \<Rightarrow> stack \<Rightarrow> bytes \<Rightarrow> script keyring \<Rightarrow> error + stack option" where
  "sim_signVector tx prev s sig ring =
     (case prev of
        Pubkeyhash h \<Rightarrow>
          if h = ring_publicKey ring \<and> s \<noteq> [] then Inr (Some (s[0 := Buffer sig])) else Inr None
      | Raw r \<Rightarrow>
          if r = ring_publicKey ring \<and> s \<noteq> [] then Inr (Some (s[0 := Buffer sig])) else Inr None
      | _ \<Rightarrow> Inr None)"

definition sim_toKey :: "outpoint \<Rightarrow> string" where
  "sim_toKey p = map (\<lambda>b. char_of (unat b)) (op_hash p) @ replicate (Suc (op_index p)) CHR ''i''"

definition sim_prims :: "(script, ptx) prims" where
  "sim_prims =
     \<lparr> parsePath = (\<lambda>s. Inl (External ''parsePath'')),
       TX_fromRaw = (\<lambda>raw. Inl (External ''TX.fromRaw'')),
       Outpoint_fromTX = (\<lambda>t i.
         case t of
           None \<Rightarrow> Inl (AssertionError ''tx'')
         | Some t \<Rightarrow> Inr \<lparr> op_hash = ptx_hash t, op_index = i \<rparr>),
       Outpoint_toKey = sim_toKey,
       output_script = (\<lambda>t i. if i < length (ptx_outputs t) then Some (ptx_outputs t ! i) else None),
       Coin_fromTX = (\<lambda>t i height.
         case t of
           None \<Rightarrow> Inl (TypeError ''tx is null'')
         | Some t \<Rightarrow>
             if i < length (ptx_outputs t) then Inr \<lparr> coin_script = ptx_outputs t ! i \<rparr>
             else Inl (AssertionError ''index'')),
       KeyRing_fromPublic = (\<lambda>pk.
         Inr \<lparr> ring_publicKey = pk, ring_script = None, ring_witness = False \<rparr>),
       isScripthash = (\<lambda>s. case s of Scripthash h \<Rightarrow> True | _ \<Rightarrow> False),
       isWitnessScripthash = (\<lambda>s. case s of WitnessScripthash h \<Rightarrow> True | _ \<Rightarrow> False),
       getWitnessPubkeyhash = (\<lambda>s. case s of WitnessPubkeyhash h \<Rightarrow> Some h | _ \<Rightarrow> None),
       Script_fromPubkeyhash = Pubkeyhash,
       script_getRedeem = sim_script_getRedeem,
       witness_getRedeem = sim_getRedeem,
       scriptInput = sim_scriptInput,
       signVector = sim_signVector,
       publicKeyConvert = Inr,
       HDPublicKey_new = Inr \<rparr>"

text \<open>
  The simulated device counts the calls it has answered and refuses the call numbered
  \<open>failAt\<close>, if any, with a status word; every other call succeeds with a fixed answer.
\<close>

definition sim_answer :: "nat option \<Rightarrow> 'a \<Rightarrow> nat \<Rightarrow> nat \<times> (error + 'a)" where
  "sim_answer failAt a d = (Suc d, if failAt = Some d then Inl (External ''status word'') else Inr a)"

definition sim_ledger :: "nat option \<Rightarrow> (script, ptx, nat) LedgerBTC" where
  "sim_ledger failAt =
     \<lparr> ledger_getPublicKey = (\<lambda>p flags. sim_answer failAt ([2, 7], [])),
       ledger_getTrustedInput = (\<lambda>t i. sim_answer failAt [50, of_nat i]),
       ledger_hashTransactionStart = (\<lambda>tx ti isNew w. sim_answer failAt ()),
       ledger_hashTransactionStartNullify = (\<lambda>tx k prev ti isNew w. sim_answer failAt ()),
       ledger_hashOutputFinalize = (\<lambda>tx. sim_answer failAt ()),
       ledger_hashTransactionStartSegwit = (\<lambda>tx k prev. sim_answer failAt ()),
       ledger_hashSign = (\<lambda>tx p ty. sim_answer failAt [48, 1]) \<rparr>"

text \<open>Descriptors, previous transactions and transactions for the runs below.\<close>

definition sim_descriptor :: "ptx \<Rightarrow> nat \<Rightarrow> bool \<Rightarrow> script option \<Rightarrow> (script, ptx) LedgerTXInput" where
  "sim_descriptor t i w r =
     new_LedgerTXInput\<lparr> li_path := [44, 0, 0, 0, 0], li_tx := Some t, li_index := i,
       li_witness := w, li_redeem := r \<rparr>"

definition prev_a :: ptx where
  "prev_a = \<lparr> ptx_hash = [97], ptx_outputs = [Pubkeyhash [2, 7], WitnessPubkeyhash [2, 7]] \<rparr>"

definition prev_b :: ptx where
  "prev_b = \<lparr> ptx_hash = [98], ptx_outputs = [Scripthash [9], Pubkeyhash [2, 7]] \<rparr>"

definition sim_input :: "ptx \<Rightarrow> nat \<Rightarrow> input" where
  "sim_input t i =
     \<lparr> in_prevout = \<lparr> op_hash = ptx_hash t, op_index = i \<rparr>, in_script = [], in_witness = [] \<rparr>"

definition sim_world :: "(nat \<Rightarrow> (script, ptx) LedgerTXInput) \<Rightarrow> (script, ptx, nat) world" where
  "sim_world h = \<lparr> signingTX = False, txlock = False, ledger = Some 0, heap = h \<rparr>"

text \<open>Heap of the mixed run: a witness descriptor, then a plain one.\<close>

definition heap_mixed :: "nat \<Rightarrow> (script, ptx) LedgerTXInput" where
  "heap_mixed = (\<lambda>_. new_LedgerTXInput)
     (0 := sim_descriptor prev_a 1 True None, 1 := sim_descriptor prev_a 0 False None)"

definition tx_mixed :: mtx where
  "tx_mixed = \<lparr> inputs = [sim_input prev_a 0, sim_input prev_a 1], outputs = [] \<rparr>"

text \<open>Heap of the plain run: two descriptors that are neither witness nor redeem inputs.\<close>

definition heap_plain :: "nat \<Rightarrow> (script, ptx) LedgerTXInput" where
  "heap_plain = (\<lambda>_. new_LedgerTXInput)
     (0 := sim_descriptor prev_a 0 False None, 1 := sim_descriptor prev_b 1 False None)"

definition tx_plain :: mtx where
  "tx_plain = \<lparr> inputs = [sim_input prev_b 1, sim_input prev_a 0], outputs = [] \<rparr>"




text \<open>A pay-to-script-hash input whose descriptor carries the redeem script.\<close>

definition sim_p2sh_descriptor :: "(script, ptx) LedgerTXInput" where
  "sim_p2sh_descriptor = (sim_descriptor prev_b 0 False (Some (Raw [2, 7])))\<lparr>li_publicKey := Some [2, 7]\<rparr>"

definition tx_p2sh :: mtx where
  "tx_p2sh = \<lparr> inputs = [sim_input prev_b 0], outputs = [] \<rparr>"

text \<open>
  A witness script-hash program nested in pay-to-script-hash: the script-sig pushes the
  program, the witness ends with the witness script.
\<close>

definition sim_p2wsh_descriptor :: "(script, ptx) LedgerTXInput" where
  "sim_p2wsh_descriptor =
     (sim_descriptor prev_b 0 True (Some (Raw [2, 7])))\<lparr>li_publicKey := Some [2, 7]\<rparr>"

definition tx_p2wsh :: mtx where
  "tx_p2wsh =
     \<lparr> inputs = [(sim_input prev_b 0)\<lparr>in_script := [Buffer [0, 9]],
                                         in_witness := [Buffer [], Buffer [2, 7]]\<rparr>],
       outputs = [] \<rparr>"





section \<open>Sequencing and what a step leaves unchanged\<close>

lemma andThenE:
  assumes "andThen m f w = (w', cs, r)"
  obtains (fail) e where "m w = (w', cs, Inl e)" and "r = Inl e"
  | (ok) w1 cs1 a cs2 where "m w = (w1, cs1, Inr a)" and "f a w1 = (w', cs2, r)" and "cs = cs1 @ cs2"
  using assms by (auto simp: andThen_def split: prod.splits sum.splits)

lemma keepsD: "keeps g m \<Longrightarrow> m w = (w', cs, r) \<Longrightarrow> g w' = g w"
  by (auto simp: keeps_def state_of_def dest: spec[of _ w])

lemma keeps_ret: "keeps g (ret a)"
  by (simp add: keeps_def ret_def state_of_def)

lemma keeps_throw: "keeps g (throw e)"
  by (simp add: keeps_def throw_def state_of_def)

lemma keeps_lift: "keeps g (lift r)"
  by (simp add: keeps_def lift_def state_of_def)

lemma keeps_assert_device: "keeps g assert_device"
  by (simp add: keeps_def assert_device_def state_of_def)

lemma keeps_andThen: "keeps g m \<Longrightarrow> (\<And>a. keeps g (f a)) \<Longrightarrow> keeps g (andThen m f)"
  by (auto simp: keeps_def andThen_def state_of_def split: prod.splits sum.splits) (metis fst_conv)+

lemma keeps_case_prod: "(\<And>a b. keeps g (f a b)) \<Longrightarrow> keeps g (case p of (a, b) \<Rightarrow> f a b)"
  by (cases p) simp

lemma keeps_if: "keeps g m1 \<Longrightarrow> keeps g m2 \<Longrightarrow> keeps g (if c then m1 else m2)"
  by simp

lemma keeps_read_input: "(\<And>this. keeps g (f this)) \<Longrightarrow> keeps g (read_input li f)"
  by (simp add: keeps_def read_input_def)

lemma keeps_ledger_call: "(\<And>w d. g (w\<lparr>ledger := d\<rparr>) = g w) \<Longrightarrow> keeps g (ledger_call c rep f)"
  by (auto simp: keeps_def ledger_call_def state_of_def split: option.splits prod.splits)

lemma flag_only_signingTX: "flag_only signingTX"
  by (simp add: flag_only_def)

lemma flag_only_txlock: "flag_only txlock"
  by (simp add: flag_only_def)

lemma flag_ledger_call: "flag_only g \<Longrightarrow> keeps g (ledger_call c rep f)"
  by (rule keeps_ledger_call) (simp add: flag_only_def)

lemma flag_on_input: "flag_only g \<Longrightarrow> keeps g (on_input li f)"
  by (auto simp: keeps_def on_input_def state_of_def flag_only_def split: sum.splits prod.splits)

lemma flag_assign_publicKey: "flag_only g \<Longrightarrow> keeps g (assign_publicKey li pk)"
  by (simp add: keeps_def assign_publicKey_def state_of_def flag_only_def)

lemma flag_getPublicKey: "flag_only g \<Longrightarrow> keeps g (getPublicKey P L p fl)"
  unfolding getPublicKey_def
  by (intro keeps_andThen keeps_case_prod keeps_lift flag_ledger_call keeps_assert_device)

lemma flag_updatePublicKeys: "flag_only g \<Longrightarrow> keeps g (updatePublicKeys P L lis)"
  by (induction lis)
     (auto intro!: keeps_ret keeps_andThen keeps_read_input keeps_if flag_getPublicKey
        flag_assign_publicKey)

lemma flag_collectTrustedInputs:
  "flag_only g \<Longrightarrow> keeps g (collectTrustedInputs P L lis ti hw)"
  by (induction lis arbitrary: ti hw)
     (auto intro!: keeps_ret keeps_andThen keeps_read_input keeps_if flag_on_input
        flag_ledger_call)

lemma flag_primeWitness: "flag_only g \<Longrightarrow> keeps g (primeWitness L tx hw)"
  unfolding primeWitness_def
  by (intro keeps_if keeps_andThen keeps_ret flag_ledger_call)

lemma flag_hashInput: "flag_only g \<Longrightarrow> keeps g (hashInput L tx k c ti isNew)"
  unfolding hashInput_def
  by (intro keeps_if keeps_andThen keeps_ret flag_ledger_call)

lemma flag_templateInput: "flag_only g \<Longrightarrow> keeps g (templateInput P tx li ix)"
  unfolding templateInput_def
  by (intro keeps_andThen keeps_case_prod keeps_if keeps_ret keeps_throw keeps_lift
        flag_on_input)

lemma flag_hashSign: "flag_only g \<Longrightarrow> keeps g (hashSign L tx li)"
  unfolding hashSign_def
  by (intro keeps_read_input flag_ledger_call)

lemma flag_requestSignature:
  "flag_only g \<Longrightarrow> keeps g (requestSignature P L tx li ti ix isNew)"
  unfolding requestSignature_def
  by (intro keeps_andThen keeps_case_prod keeps_ret flag_hashSign flag_hashInput
        flag_templateInput)

lemma flag_signInput: "flag_only g \<Longrightarrow> keeps g (signInput P L tx li ti ix isNew)"
  unfolding signInput_def
  by (intro keeps_andThen keeps_case_prod keeps_lift flag_requestSignature)

lemma flag_signInputs: "flag_only g \<Longrightarrow> keeps g (signInputs P L lis ti ix newtx tx)"
  by (induction lis arbitrary: newtx tx)
     (auto intro!: keeps_ret keeps_andThen keeps_case_prod flag_on_input flag_signInput)

lemma inner_NonMTX:
  "inner_signTransaction P L NonMTX lis w
     = (w, [], Inl (AssertionError ''Cannot use non-MTX tx for signing''))"
  by (simp add: inner_signTransaction_def throw_def)

lemma inner_signingTX:
  assumes "inner_signTransaction P L (MTX tx) lis w = (w', cs, r)"
  shows "signingTX w' = (case r of Inl e \<Rightarrow> True | Inr t \<Rightarrow> False)"
proof -
  note k = keepsD[OF flag_updatePublicKeys[OF flag_only_signingTX]]
           keepsD[OF flag_collectTrustedInputs[OF flag_only_signingTX]]
           keepsD[OF flag_primeWitness[OF flag_only_signingTX]]
           keepsD[OF flag_signInputs[OF flag_only_signingTX]]
  from assms show ?thesis
    unfolding inner_signTransaction_def txval.case
    by (elim andThenE; clarsimp simp: assign_signingTX_def ret_def dest!: k)+
qed

lemma inner_txlock:
  assumes "inner_signTransaction P L txv lis w = (w', cs, r)"
  shows "txlock w' = txlock w"
proof (cases txv)
  case NonMTX
  with assms show ?thesis by (simp add: inner_NonMTX)
next
  case (MTX tx)
  note k = keepsD[OF flag_updatePublicKeys[OF flag_only_txlock]]
           keepsD[OF flag_collectTrustedInputs[OF flag_only_txlock]]
           keepsD[OF flag_primeWitness[OF flag_only_txlock]]
           keepsD[OF flag_signInputs[OF flag_only_txlock]]
  from assms MTX show ?thesis
    unfolding inner_signTransaction_def
    by simp (elim andThenE; clarsimp simp: assign_signingTX_def ret_def dest!: k)+
qed

text \<open>Reading a successful run of a sequence back into its steps.\<close>

lemma toStack_fromStack: "toStack v (fromStack v s input) = s"
  by (cases v) (simp_all add: toStack_def fromStack_def)

lemma foldSignature_redeem_Some:
  assumes "v_redeem c"
    and "signVector P tx (v_prev c) (snd (pop (toStack (v_vector c) (inputs tx ! i)))) sig ring
           = Inr (Some res)"
  shows "foldSignature P tx i c sig ring
           = Inr (True, tx\<lparr>inputs := (inputs tx)
                   [i := fromStack (v_vector c)
                           (res @ [fst (pop (toStack (v_vector c) (inputs tx ! i)))])
                           (inputs tx ! i)]\<rparr>)"
  using assms by (cases "pop (toStack (v_vector c) (inputs tx ! i))")
    (simp add: foldSignature_def bindE_def)

lemma input_atD: "input_at tx index = Inr i \<Longrightarrow> index = Some i \<and> i < length (inputs tx)"
  by (auto simp: input_at_def split: option.splits if_splits)

lemma andThen_Inr_iff:
  "andThen m f w = (w', cs, Inr x) \<longleftrightarrow>
     (\<exists>w1 cs1 a cs2. m w = (w1, cs1, Inr a) \<and> f a w1 = (w', cs2, Inr x) \<and> cs = cs1 @ cs2)"
  by (auto simp: andThen_def split: prod.splits sum.splits)

lemma lift_iff: "lift x w = (w', cs, r) \<longleftrightarrow> w' = w \<and> cs = [] \<and> x = r"
  by (auto simp: lift_def)

lemma ret_iff: "ret x w = (w', cs, r) \<longleftrightarrow> w' = w \<and> cs = [] \<and> r = Inr x"
  by (auto simp: ret_def)

lemma throw_iff: "throw e w = (w', cs, r) \<longleftrightarrow> w' = w \<and> cs = [] \<and> r = Inl e"
  by (auto simp: throw_def)

lemma templateInput_success:
  assumes "templateInput P tx ledgerInput index w = (w', cs, Inr (inputKey, ring, coin, tx1, i, c))"
  shows "index = Some i \<and> i < length (inputs tx1)
           \<and> scriptInput P tx index coin ring = Inr (True, tx1)
           \<and> classify P (coin_script coin) (inputs tx1 ! i) = Inr c"
  using assms unfolding templateInput_def
  by (clarsimp simp: andThen_Inr_iff lift_iff ret_iff throw_iff split: if_splits
        dest!: input_atD)

lemma requestSignature_success:
  assumes "requestSignature P L tx ledgerInput trustedInputs index isNew w
             = (w', cs, Inr (ring, coin, tx1, i, c, sig))"
  shows "index = Some i \<and> i < length (inputs tx1)
           \<and> scriptInput P tx index coin ring = Inr (True, tx1)
           \<and> classify P (coin_script coin) (inputs tx1 ! i) = Inr c"
  using assms unfolding requestSignature_def
  by (clarsimp simp: andThen_Inr_iff ret_iff dest!: templateInput_success)

text \<open>
  Once the signature is there, the value of \<open>signInput\<close> is the value of the fold, and
  \<open>signInput\<close> returns a boolean only then.
\<close>

lemma signInput_fold:
  assumes "requestSignature P L tx ledgerInput trustedInputs index isNew w
             = (w', cs, Inr (ring, coin, tx1, i, c, sig))"
  shows "signInput P L tx ledgerInput trustedInputs index isNew w
           = (w', cs, foldSignature P tx1 i c sig ring)"
  using assms by (simp add: signInput_def andThen_def lift_def)

lemma signInput_success:
  assumes "signInput P L tx ledgerInput trustedInputs index isNew w = (w', cs, Inr (b, tx'))"
  obtains ring coin tx1 i c sig where
    "requestSignature P L tx ledgerInput trustedInputs index isNew w
       = (w', cs, Inr (ring, coin, tx1, i, c, sig))"
    and "foldSignature P tx1 i c sig ring = Inr (b, tx')"
proof -
  from assms have "\<exists>ring coin tx1 i c sig.
      requestSignature P L tx ledgerInput trustedInputs index isNew w
        = (w', cs, Inr (ring, coin, tx1, i, c, sig))
      \<and> foldSignature P tx1 i c sig ring = Inr (b, tx')"
    unfolding signInput_def
    by (clarsimp simp: andThen_Inr_iff lift_iff)
  then show thesis
    using that by blast
qed

text \<open>
  The \<open>redeem\<close> flag is set exactly for the inputs of the redeem case, and the vector is
  the witness exactly for a witness program.
\<close>

lemma classify_redeem_case:
  assumes "classify P script input = Inr c"
  shows "v_redeem c = redeem_case P script input
       \<and> v_vector c = (if witness_p2sh P script input then Witness
                        else if v_witness c then Witness else ScriptSig)"
  using assms
  by (auto simp: classify_def redeem_case_def plain_p2sh_def witness_p2sh_def
      deciding_script_def bindE_def split: if_splits option.splits)

section \<open>The driver calls of each step\<close>

lemma andThen_iff:
  "andThen m f w = (w', cs, r) \<longleftrightarrow>
     (\<exists>e. m w = (w', cs, Inl e) \<and> r = Inl e)
     \<or> (\<exists>w1 cs1 a cs2. m w = (w1, cs1, Inr a) \<and> f a w1 = (w', cs2, r) \<and> cs = cs1 @ cs2)"
  by (auto simp: andThen_def split: prod.splits sum.splits)

lemma onlyD: "only p m \<Longrightarrow> m w = (w', cs, r) \<Longrightarrow> list_all p (map fst cs)"
  by (auto simp: only_def calls_of_def dest: spec[of _ w])

lemma only_mono: "only p m \<Longrightarrow> (\<And>c. p c \<Longrightarrow> q c) \<Longrightarrow> only q m"
  by (auto simp: only_def list_all_iff)

lemma only_ret: "only p (ret a)"
  by (simp add: only_def ret_def calls_of_def)

lemma only_throw: "only p (throw e)"
  by (simp add: only_def throw_def calls_of_def)

lemma only_lift: "only p (lift r)"
  by (simp add: only_def lift_def calls_of_def)

lemma only_assert_device: "only p assert_device"
  by (simp add: only_def assert_device_def calls_of_def)

lemma only_assign_publicKey: "only p (assign_publicKey li pk)"
  by (simp add: only_def assign_publicKey_def calls_of_def)

lemma only_assign_signingTX: "only p (assign_signingTX b)"
  by (simp add: only_def assign_signingTX_def calls_of_def)

lemma only_on_input: "only p (on_input li f)"
  by (auto simp: only_def on_input_def calls_of_def split: sum.splits prod.splits)

lemma only_andThen: "only p m \<Longrightarrow> (\<And>a. only p (f a)) \<Longrightarrow> only p (andThen m f)"
proof -
  assume m: "only p m" and f: "\<And>a. only p (f a)"
  show ?thesis
    unfolding only_def
  proof
    fix w
    obtain w1 cs1 r1 where mw: "m w = (w1, cs1, r1)" by (cases "m w") auto
    from onlyD[OF m mw] have c1: "list_all p (map fst cs1)" .
    show "list_all p (map fst (calls_of (andThen m f w)))"
    proof (cases r1)
      case (Inl e)
      with mw c1 show ?thesis by (simp add: andThen_def calls_of_def)
    next
      case (Inr a)
      obtain w2 cs2 r2 where fw: "f a w1 = (w2, cs2, r2)" by (cases "f a w1") auto
      from onlyD[OF f fw] have "list_all p (map fst cs2)" .
      with mw c1 Inr fw show ?thesis by (simp add: andThen_def calls_of_def)
    qed
  qed
qed

lemma only_case_prod: "(\<And>a b. only p (f a b)) \<Longrightarrow> only p (case x of (a, b) \<Rightarrow> f a b)"
  by (cases x) simp

lemma only_if: "only p m1 \<Longrightarrow> only p m2 \<Longrightarrow> only p (if c then m1 else m2)"
  by simp

lemma only_read_input: "(\<And>this. only p (f this)) \<Longrightarrow> only p (read_input li f)"
  by (simp add: only_def read_input_def)

lemma only_ledger_call: "p c \<Longrightarrow> only p (ledger_call c rep f)"
  by (auto simp: only_def ledger_call_def calls_of_def split: option.splits prod.splits)

lemma only_getPublicKey: "only is_getPublicKey (getPublicKey P L p fl)"
  unfolding getPublicKey_def
  by (intro only_andThen only_case_prod only_lift only_assert_device only_ledger_call) simp

lemma only_updatePublicKeys: "only is_getPublicKey (updatePublicKeys P L lis)"
  by (induction lis)
     (auto intro!: only_ret only_andThen only_read_input only_if only_getPublicKey
        only_assign_publicKey)

lemma only_collectTrustedInputs: "only is_getTrustedInput (collectTrustedInputs P L lis ti hw)"
  by (induction lis arbitrary: ti hw)
     (auto intro!: only_ret only_andThen only_read_input only_if only_on_input
        only_ledger_call)

lemma only_templateInput: "only p (templateInput P tx li ix)"
  unfolding templateInput_def
  by (intro only_andThen only_case_prod only_if only_ret only_throw only_lift only_on_input)

lemma only_hashInput: "only is_per_input (hashInput L tx k c ti isNew)"
  unfolding hashInput_def
  by (intro only_if only_andThen only_ledger_call) simp_all

lemma only_hashSign: "only is_per_input (hashSign L tx li)"
  unfolding hashSign_def
  by (intro only_read_input only_ledger_call) simp

lemma only_requestSignature: "only is_per_input (requestSignature P L tx li ti ix isNew)"
  unfolding requestSignature_def
  by (intro only_andThen only_case_prod only_ret only_hashSign only_hashInput
        only_templateInput)

lemma only_signInput: "only is_per_input (signInput P L tx li ti ix isNew)"
  unfolding signInput_def
  by (intro only_andThen only_case_prod only_lift only_requestSignature)

lemma only_signInputs: "only is_per_input (signInputs P L lis ti ix newtx tx)"
  by (induction lis arbitrary: newtx tx)
     (auto intro!: only_ret only_andThen only_case_prod only_on_input only_signInput)

lemma templateInput_quiet:
  "templateInput P tx li ix w = (w', cs, r) \<Longrightarrow> cs = []"
  using onlyD[OF only_templateInput[where p = "\<lambda>_. False"], of P tx li ix w w' cs r]
  by (cases cs) auto

text \<open>The phases of a run.\<close>

lemma inner_phases:
  assumes "inner_signTransaction P L (MTX tx) lis w = (w', cs, r)"
  obtains (keys) e where
      "updatePublicKeys P L lis (w\<lparr>signingTX := True\<rparr>) = (w', cs, Inl e)" and "r = Inl e"
  | (trusted) w1 cs1 cs2 e where
      "updatePublicKeys P L lis (w\<lparr>signingTX := True\<rparr>) = (w1, cs1, Inr ())"
      and "collectTrustedInputs P L lis Map.empty False w1 = (w', cs2, Inl e)"
      and "cs = cs1 @ cs2" and "r = Inl e"
  | (prime) w1 cs1 w2 cs2 ti hw cs3 e where
      "updatePublicKeys P L lis (w\<lparr>signingTX := True\<rparr>) = (w1, cs1, Inr ())"
      and "collectTrustedInputs P L lis Map.empty False w1 = (w2, cs2, Inr (ti, hw))"
      and "primeWitness L tx hw w2 = (w', cs3, Inl e)"
      and "cs = cs1 @ cs2 @ cs3" and "r = Inl e"
  | (inputs) w1 cs1 w2 cs2 ti hw w3 cs3 newtx w4 cs4 where
      "updatePublicKeys P L lis (w\<lparr>signingTX := True\<rparr>) = (w1, cs1, Inr ())"
      and "collectTrustedInputs P L lis Map.empty False w1 = (w2, cs2, Inr (ti, hw))"
      and "primeWitness L tx hw w2 = (w3, cs3, Inr newtx)"
      and "signInputs P L lis ti (findIndexes P tx) newtx tx w3 = (w4, cs4, r)"
      and "cs = cs1 @ cs2 @ cs3 @ cs4"
proof -
  from assms have
    "(\<exists>e. updatePublicKeys P L lis (w\<lparr>signingTX := True\<rparr>) = (w', cs, Inl e) \<and> r = Inl e)
     \<or> (\<exists>w1 cs1 cs2 e.
           updatePublicKeys P L lis (w\<lparr>signingTX := True\<rparr>) = (w1, cs1, Inr ())
         \<and> collectTrustedInputs P L lis Map.empty False w1 = (w', cs2, Inl e)
         \<and> cs = cs1 @ cs2 \<and> r = Inl e)
     \<or> (\<exists>w1 cs1 w2 cs2 ti hw cs3 e.
           updatePublicKeys P L lis (w\<lparr>signingTX := True\<rparr>) = (w1, cs1, Inr ())
         \<and> collectTrustedInputs P L lis Map.empty False w1 = (w2, cs2, Inr (ti, hw))
         \<and> primeWitness L tx hw w2 = (w', cs3, Inl e)
         \<and> cs = cs1 @ cs2 @ cs3 \<and> r = Inl e)
     \<or> (\<exists>w1 cs1 w2 cs2 ti hw w3 cs3 newtx w4 cs4.
           updatePublicKeys P L lis (w\<lparr>signingTX := True\<rparr>) = (w1, cs1, Inr ())
         \<and> collectTrustedInputs P L lis Map.empty False w1 = (w2, cs2, Inr (ti, hw))
         \<and> primeWitness L tx hw w2 = (w3, cs3, Inr newtx)
         \<and> signInputs P L lis ti (findIndexes P tx) newtx tx w3 = (w4, cs4, r)
         \<and> cs = cs1 @ cs2 @ cs3 @ cs4)"
    unfolding inner_signTransaction_def txval.case
    by (auto simp: andThen_iff assign_signingTX_def ret_iff)
  then show thesis
    by (elim disjE exE conjE) (rule keys trusted prime inputs; assumption)+
qed

lemma on_input_calls: "on_input li f w = (w', cs, r) \<Longrightarrow> cs = []"
  by (auto simp: on_input_def split: sum.splits prod.splits)

lemma read_input_iff: "read_input li f w = (w', cs, r) \<longleftrightarrow> f (heap w li) w = (w', cs, r)"
  by (simp add: read_input_def)

lemma ledger_call_calls:
  "ledger_call c rep f w = (w', cs, r) \<Longrightarrow>
     (cs = [] \<and> isl r) \<or> (\<exists>rp. cs = [(c, rp)])"
  by (auto simp: ledger_call_def split: option.splits prod.splits sum.splits)

lemma passes_Nil [simp]: "passes [] = []"
  by (simp add: passes_def map_filter_simps)

lemma passes_Cons [simp]:
  "passes ((c, rp) # cs) = (case pass_of c of None \<Rightarrow> passes cs | Some p \<Rightarrow> p # passes cs)"
  by (simp add: passes_def map_filter_simps split: option.splits)

lemma passes_append [simp]: "passes (cs1 @ cs2) = passes cs1 @ passes cs2"
  by (simp add: passes_def map_filter_def)

lemma passes_none:
  "list_all (\<lambda>c. pass_of c = None) (map fst cs) \<Longrightarrow> passes cs = []"
  by (induction cs) auto

lemma hashInput_passes:
  assumes "hashInput L tx k c ti isNew w = (w', cs, r)"
  shows "(passes cs = [] \<and> isl r) \<or> passes cs = [Nullify isNew] \<or> passes cs = [Segwit]"
  using assms unfolding hashInput_def
  by (auto simp: andThen_iff split: if_splits dest!: ledger_call_calls)

lemma signInput_passes:
  assumes "signInput P L tx li ti ix isNew w = (w', cs, r)"
  shows "(passes cs = [] \<and> isl r) \<or> passes cs = [Nullify isNew] \<or> passes cs = [Segwit]"
  using assms unfolding signInput_def requestSignature_def hashSign_def
  by (auto simp: andThen_iff lift_iff ret_iff read_input_iff
      dest!: templateInput_quiet hashInput_passes ledger_call_calls)

section \<open>What a run never writes in a descriptor\<close>

lemma static_toKey:
  "toKey P this = Inr (this', k) \<Longrightarrow>
     static P this' = static P this \<and> key_of P this = k \<and> has_key P this"
  by (auto simp: static_def key_of_def has_key_def toKey_def getOutpoint_def bindE_def Let_def
      split: if_splits option.splits sum.splits prod.splits)

lemma key_of_cong:
  "key_cache a = key_cache b \<Longrightarrow> outpoint_cache a = outpoint_cache b \<Longrightarrow> li_tx a = li_tx b
     \<Longrightarrow> li_index a = li_index b \<Longrightarrow> key_of P a = key_of P b \<and> has_key P a = has_key P b"
  by (auto simp: key_of_def has_key_def toKey_def getOutpoint_def bindE_def Let_def
      split: option.splits sum.splits prod.splits)

lemma static_publicKey: "static P (this\<lparr>li_publicKey := pk\<rparr>) = static P this"
  by (simp add: static_def key_of_cong[of "this\<lparr>li_publicKey := pk\<rparr>" this])

lemma getRing_shape:
  "getRing P this = Inr (this', r) \<Longrightarrow> this' = this \<or> this' = this\<lparr>ring_cache := Some r\<rparr>"
  by (auto simp: getRing_def bindE_def Let_def split: option.splits sum.splits)

lemma getCoin_shape:
  "getCoin P this h = Inr (this', c) \<Longrightarrow> this' = this \<or> this' = this\<lparr>coin_cache := Some c\<rparr>"
  by (auto simp: getCoin_def bindE_def split: option.splits sum.splits)

lemma static_getRing: "getRing P this = Inr (this', r) \<Longrightarrow> static P this' = static P this"
  by (drule getRing_shape)
     (auto simp: static_def key_of_cong[of "this\<lparr>ring_cache := Some r\<rparr>" this])

lemma static_getCoin: "getCoin P this h = Inr (this', c) \<Longrightarrow> static P this' = static P this"
  by (drule getCoin_shape)
     (auto simp: static_def key_of_cong[of "this\<lparr>coin_cache := Some c\<rparr>" this])

lemma statics_on_input:
  "(\<And>this this' a. f this = Inr (this', a) \<Longrightarrow> static P this' = static P this)
     \<Longrightarrow> keeps (statics P) (on_input li f)"
  by (auto simp: keeps_def on_input_def state_of_def statics_def fun_eq_iff
      split: sum.splits prod.splits)

lemma statics_ledger_call: "keeps (statics P) (ledger_call c rep f)"
  by (rule keeps_ledger_call) (simp add: statics_def)

lemma statics_assign_publicKey: "keeps (statics P) (assign_publicKey li pk)"
  by (auto simp: keeps_def assign_publicKey_def state_of_def statics_def fun_eq_iff
      static_publicKey)

lemma statics_toKey: "keeps (statics P) (on_input li (toKey P))"
  by (rule statics_on_input) (simp add: static_toKey)

lemma statics_getPublicKey: "keeps (statics P) (getPublicKey P L p fl)"
  unfolding getPublicKey_def
  by (intro keeps_andThen keeps_case_prod keeps_lift statics_ledger_call keeps_assert_device)

lemma statics_updatePublicKeys: "keeps (statics P) (updatePublicKeys P L lis)"
  by (induction lis)
     (auto intro!: keeps_ret keeps_andThen keeps_read_input keeps_if statics_getPublicKey
        statics_assign_publicKey)

lemma statics_collectTrustedInputs: "keeps (statics P) (collectTrustedInputs P L lis ti hw)"
  by (induction lis arbitrary: ti hw)
     (auto intro!: keeps_ret keeps_andThen keeps_read_input keeps_if statics_toKey
        statics_ledger_call)

lemma statics_primeWitness: "keeps (statics P) (primeWitness L tx hw)"
  unfolding primeWitness_def
  by (intro keeps_if keeps_andThen keeps_ret statics_ledger_call)

lemma staticsD:
  assumes "statics P w' = statics P w"
  shows "li_path (heap w' li) = li_path (heap w li)"
    and "li_tx (heap w' li) = li_tx (heap w li)"
    and "li_index (heap w' li) = li_index (heap w li)"
    and "li_witness (heap w' li) = li_witness (heap w li)"
    and "li_redeem (heap w' li) = li_redeem (heap w li)"
    and "li_type (heap w' li) = li_type (heap w li)"
    and "key_of P (heap w' li) = key_of P (heap w li)"
    and "has_key P (heap w' li) = has_key P (heap w li)"
  using fun_cong[OF assms, of li] by (simp_all add: statics_def static_def)

lemma statics_plain_inputs:
  "statics P w' = statics P w \<Longrightarrow> plain_inputs (heap w') lis = plain_inputs (heap w) lis"
  by (simp add: plain_inputs_def staticsD[of P w' w])

lemma statics_wanted_calls:
  "statics P w' = statics P w \<Longrightarrow> wanted_calls (heap w') lis = wanted_calls (heap w) lis"
  by (simp add: wanted_calls_def statics_plain_inputs[of P w' w] staticsD[of P w' w])

lemma statics_any_witness:
  "statics P w' = statics P w \<Longrightarrow> any_witness (heap w') lis = any_witness (heap w) lis"
  by (simp add: any_witness_def staticsD[of P w' w])

lemma statics_cached_tokens:
  "statics P w' = statics P w \<Longrightarrow> cached_tokens P (heap w') lis toks = cached_tokens P (heap w) lis toks"
  by (simp add: cached_tokens_def statics_plain_inputs[of P w' w] staticsD[of P w' w])

section \<open>The trusted inputs\<close>

lemma trusted_calls_Nil [simp]: "trusted_calls [] = []"
  by (simp add: trusted_calls_def map_filter_simps)

lemma trusted_calls_append [simp]:
  "trusted_calls (cs1 @ cs2) = trusted_calls cs1 @ trusted_calls cs2"
  by (simp add: trusted_calls_def map_filter_def)

lemma trusted_calls_single [simp]:
  "trusted_calls [(GetTrustedInput t i, rp)] = [(t, i)]"
  by (simp add: trusted_calls_def map_filter_simps)

lemma tokens_Nil [simp]: "tokens [] = []"
  by (simp add: tokens_def map_filter_simps)

lemma tokens_append [simp]: "tokens (cs1 @ cs2) = tokens cs1 @ tokens cs2"
  by (simp add: tokens_def map_filter_def)

lemma tokens_single [simp]: "tokens [(GetTrustedInput t i, Bytes b)] = [b]"
  by (simp add: tokens_def map_filter_simps)

lemma ledger_call_cases:
  assumes "ledger_call c rep f w = (w', cs, r)"
  obtains (null) "ledger w = None" and "cs = []" and "w' = w" and "isl r"
  | (threw) e where "cs = [(c, Threw e)]" and "r = Inl e" and "heap w' = heap w"
  | (answered) a where "cs = [(c, rep a)]" and "r = Inr a" and "heap w' = heap w"
  using assms
  by (auto simp: ledger_call_def split: option.splits prod.splits sum.splits)

lemma plain_inputs_Cons:
  "plain_inputs h (li # lis) =
     (if \<not> li_witness (h li) \<and> li_redeem (h li) = None then li # plain_inputs h lis
      else plain_inputs h lis)"
  by (simp add: plain_inputs_def)

lemma cached_tokens_step:
  assumes "\<not> li_witness (h li)" and "li_redeem (h li) = None"
  shows "ti0 ++ cached_tokens P h (li # lis) (tok # toks)
           = ti0(key_of P (h li) \<mapsto> tok) ++ cached_tokens P h lis toks"
  using assms by (simp add: cached_tokens_def plain_inputs_Cons map_add_upd_left fun_eq_iff map_add_def split: option.splits)

lemma collect_spec:
  "collectTrustedInputs P L lis ti0 hw0 w = (w', cs, r) \<Longrightarrow>
     prefix (trusted_calls cs) (wanted_calls (heap w) lis)
     \<and> (\<forall>ti hw. r = Inr (ti, hw) \<longrightarrow>
           trusted_calls cs = wanted_calls (heap w) lis
         \<and> hw = (hw0 \<or> any_witness (heap w) lis)
         \<and> length (tokens cs) = length (plain_inputs (heap w) lis)
         \<and> list_all (\<lambda>li. has_key P (heap w li)) (plain_inputs (heap w) lis)
         \<and> ti = ti0 ++ cached_tokens P (heap w) lis (tokens cs))"
proof (induction lis arbitrary: ti0 hw0 w cs)
  case Nil
  then show ?case
    by (auto simp: ret_iff wanted_calls_def plain_inputs_def any_witness_def cached_tokens_def)
next
  case (Cons li lis)
  let ?d = "heap w li"
  show ?case
  proof (cases "li_witness ?d")
    case True
    with Cons.prems have "collectTrustedInputs P L lis ti0 True w = (w', cs, r)"
      by (simp add: read_input_iff)
    moreover have pl: "plain_inputs (heap w) (li # lis) = plain_inputs (heap w) lis"
      using True by (auto simp: plain_inputs_Cons)
    moreover have "wanted_calls (heap w) (li # lis) = wanted_calls (heap w) lis"
      by (simp add: wanted_calls_def pl)
    moreover have "cached_tokens P (heap w) (li # lis) = cached_tokens P (heap w) lis"
      by (simp add: cached_tokens_def pl fun_eq_iff)
    moreover have "any_witness (heap w) (li # lis)"
      using True by (simp add: any_witness_def)
    ultimately show ?thesis
      using Cons.IH[of ti0 True w cs] by (simp; blast)
  next
    case nw: False
    show ?thesis
    proof (cases "li_redeem ?d = None")
      case False
      with nw Cons.prems have "collectTrustedInputs P L lis ti0 hw0 w = (w', cs, r)"
        by (simp add: read_input_iff)
      moreover have pl: "plain_inputs (heap w) (li # lis) = plain_inputs (heap w) lis"
        using False by (auto simp: plain_inputs_Cons)
      moreover have "wanted_calls (heap w) (li # lis) = wanted_calls (heap w) lis"
        by (simp add: wanted_calls_def pl)
      moreover have "cached_tokens P (heap w) (li # lis) = cached_tokens P (heap w) lis"
        by (simp add: cached_tokens_def pl fun_eq_iff)
      moreover have "any_witness (heap w) (li # lis) = any_witness (heap w) lis"
        using nw by (simp add: any_witness_def)
      ultimately show ?thesis
        using Cons.IH[of ti0 hw0 w cs] by (simp; blast?)
    next
      case True
      have wanted: "wanted_calls (heap w) (li # lis)
                      = (li_tx ?d, li_index ?d) # wanted_calls (heap w) lis"
        using nw True by (simp add: wanted_calls_def plain_inputs_Cons)
      from nw True Cons.prems have run:
        "andThen (on_input li (toKey P)) (\<lambda>pokey.
         andThen (read_input li (\<lambda>this.
                    ledger_call (GetTrustedInput (li_tx this) (li_index this)) Bytes
                      (ledger_getTrustedInput L (li_tx this) (li_index this))))
           (\<lambda>trustedInput.
         collectTrustedInputs P L lis (ti0(pokey \<mapsto> trustedInput)) hw0)) w = (w', cs, r)"
        by (simp add: read_input_iff)
      from run show ?thesis
      proof (cases rule: andThenE)
        case (fail e)
        then show ?thesis by (auto dest: on_input_calls)
      next
        case (ok w1 cs1 k cs2)
        from ok(1) have cs1: "cs1 = []" by (rule on_input_calls)
        from keepsD[OF statics_toKey ok(1)] have s1: "statics P w1 = statics P w" .
        from ok(1) have k: "key_of P ?d = k" and hk: "has_key P ?d"
          by (auto simp: on_input_def split: sum.splits prod.splits dest: static_toKey)
        let ?c = "GetTrustedInput (li_tx ?d) (li_index ?d)"
        from ok(2) show ?thesis
        proof (cases rule: andThenE)
          case (fail e)
          then have "ledger_call ?c Bytes
              (ledger_getTrustedInput L (li_tx (heap w1 li)) (li_index (heap w1 li))) w1
              = (w', cs2, Inl e)"
            by (simp add: read_input_iff staticsD[OF s1])
          then show ?thesis
            using fail(2) ok(3) cs1 wanted
            by (cases rule: ledger_call_cases) auto
        next
          case (ok w2 cs3 tok cs4)
          from ok(1) have call: "ledger_call ?c Bytes
              (ledger_getTrustedInput L (li_tx (heap w1 li)) (li_index (heap w1 li))) w1
              = (w2, cs3, Inr tok)"
            by (simp add: read_input_iff staticsD[OF s1])
          from call have cs3: "cs3 = [(?c, Bytes tok)]" and h2: "heap w2 = heap w1"
            by (cases rule: ledger_call_cases; simp)+
          from h2 s1 have s2: "statics P w2 = statics P w"
            by (simp add: statics_def)
          note ih = Cons.IH[OF ok(2)]
          have cs: "cs = (?c, Bytes tok) # cs4"
            using \<open>cs = cs1 @ cs2\<close> cs1 ok(3) cs3 by simp
          have tc: "trusted_calls cs = (li_tx ?d, li_index ?d) # trusted_calls cs4"
            by (simp add: cs trusted_calls_def map_filter_simps)
          have tk: "tokens cs = tok # tokens cs4"
            by (simp add: cs tokens_def map_filter_simps)
          have pl: "plain_inputs (heap w) (li # lis) = li # plain_inputs (heap w) lis"
            using nw True by (simp add: plain_inputs_Cons)
          have aw: "any_witness (heap w) (li # lis) = any_witness (heap w) lis"
            using nw by (simp add: any_witness_def)
          have ct: "ti0 ++ cached_tokens P (heap w) (li # lis) (tok # toks)
                      = ti0(k \<mapsto> tok) ++ cached_tokens P (heap w) lis toks" for toks
            using cached_tokens_step[where h = "heap w" and li = li and ?ti0.0 = ti0 and P = P
                and lis = lis and tok = tok and toks = toks, OF nw True] k by simp
          from ih have p1: "prefix (trusted_calls cs4) (wanted_calls (heap w) lis)"
            and p2: "\<forall>ti hw. r = Inr (ti, hw) \<longrightarrow>
                       trusted_calls cs4 = wanted_calls (heap w) lis
                     \<and> hw = (hw0 \<or> any_witness (heap w) lis)
                     \<and> length (tokens cs4) = length (plain_inputs (heap w) lis)
                     \<and> list_all (\<lambda>li. has_key P (heap w li)) (plain_inputs (heap w) lis)
                     \<and> ti = ti0(k \<mapsto> tok) ++ cached_tokens P (heap w) lis (tokens cs4)"
            unfolding statics_wanted_calls[OF s2] statics_any_witness[OF s2]
              statics_plain_inputs[OF s2] statics_cached_tokens[OF s2] staticsD(8)[OF s2]
            by blast+
          from p1 have "prefix (trusted_calls cs) (wanted_calls (heap w) (li # lis))"
            by (simp add: tc wanted)
          moreover from p2 have "\<forall>ti hw. r = Inr (ti, hw) \<longrightarrow>
                       trusted_calls cs = wanted_calls (heap w) (li # lis)
                     \<and> hw = (hw0 \<or> any_witness (heap w) (li # lis))
                     \<and> length (tokens cs) = length (plain_inputs (heap w) (li # lis))
                     \<and> list_all (\<lambda>li. has_key P (heap w li)) (plain_inputs (heap w) (li # lis))
                     \<and> ti = ti0 ++ cached_tokens P (heap w) (li # lis) (tokens cs)"
            by (simp add: tc tk wanted pl aw ct hk)
          ultimately show ?thesis by blast
        qed
      qed
    qed
  qed
qed

section \<open>The kinds of calls and the passes of a run\<close>

lemma kind_getPublicKey:
  "is_getPublicKey c \<Longrightarrow>
     \<not> is_getTrustedInput c \<and> \<not> is_hashTransactionStart c \<and> \<not> is_per_input c
     \<and> pass_of c = None \<and> nullify_trusted c = None"
  by (cases c) simp_all

lemma kind_getTrustedInput:
  "is_getTrustedInput c \<Longrightarrow>
     \<not> is_getPublicKey c \<and> \<not> is_hashTransactionStart c \<and> \<not> is_per_input c
     \<and> pass_of c = None \<and> nullify_trusted c = None"
  by (cases c) simp_all

lemma kind_per_input:
  "is_per_input c \<Longrightarrow>
     \<not> is_getPublicKey c \<and> \<not> is_getTrustedInput c \<and> \<not> is_hashTransactionStart c"
  by (cases c) simp_all

lemma trusted_calls_none:
  "list_all (\<lambda>c. \<not> is_getTrustedInput c) (map fst cs) \<Longrightarrow> trusted_calls cs = [] \<and> tokens cs = []"
proof (induction cs)
  case Nil
  show ?case by simp
next
  case (Cons x cs)
  obtain c rp where x: "x = (c, rp)" by (cases x)
  with Cons.prems have "\<not> is_getTrustedInput c" by simp
  then have "trusted_of (c, rp) = None" and "token_of (c, rp) = None"
    by (cases c; simp)+
  with Cons x show ?case
    by (simp add: trusted_calls_def tokens_def map_filter_simps)
qed

lemma list_all_mono: "list_all p xs \<Longrightarrow> (\<And>x. p x \<Longrightarrow> q x) \<Longrightarrow> list_all q xs"
  by (auto simp: list_all_iff)

text \<open>The priming pass.\<close>

lemma primeWitness_cases:
  assumes "primeWitness L tx hw w = (w', cs, r)"
  obtains (skipped) "\<not> hw" and "cs = []" and "r = Inr True" and "w' = w"
  | (null) "hw" and "cs = []" and "isl r"
  | (start_threw) e where "hw" and "cs = [(HashTransactionStart tx Map.empty True True, Threw e)]"
      and "r = Inl e"
  | (finalize_threw) e where "hw"
      and "cs = [(HashTransactionStart tx Map.empty True True, Void), (HashOutputFinalize tx, Threw e)]"
      and "r = Inl e"
  | (primed) "hw"
      and "cs = [(HashTransactionStart tx Map.empty True True, Void), (HashOutputFinalize tx, Void)]"
      and "r = Inr False"
proof (cases hw)
  case False
  with assms show ?thesis
    by (intro skipped) (auto simp: primeWitness_def ret_iff)
next
  case True
  with assms have run:
    "andThen (ledger_call (HashTransactionStart tx Map.empty True True) (\<lambda>_. Void)
                (ledger_hashTransactionStart L tx Map.empty True True)) (\<lambda>_.
     andThen (ledger_call (HashOutputFinalize tx) (\<lambda>_. Void)
                (ledger_hashOutputFinalize L tx)) (\<lambda>_.
     ret False)) w = (w', cs, r)"
    by (simp add: primeWitness_def)
  from run show ?thesis
  proof (cases rule: andThenE)
    case (fail e)
    from fail(1) show ?thesis
      by (cases rule: ledger_call_cases) (use fail(2) True in \<open>auto intro: null start_threw\<close>)
  next
    case (ok w1 cs1 a cs2)
    from ok(1) have cs1: "cs1 = [(HashTransactionStart tx Map.empty True True, Void)]"
      by (cases rule: ledger_call_cases) auto
    from ok(2) show ?thesis
    proof (cases rule: andThenE)
      case (fail e)
      from fail(1) have "cs2 = [] \<or> cs2 = [(HashOutputFinalize tx, Threw e)]"
        by (cases rule: ledger_call_cases) auto
      moreover from fail(1) have "cs2 \<noteq> []"
        using ok(1)
        by (auto simp: ledger_call_def split: option.splits prod.splits)
      ultimately show ?thesis
        using fail(2) cs1 ok(3) True by (intro finalize_threw) auto
    next
      case (ok w2 cs3 b cs4)
      from ok(1) have "cs3 = [(HashOutputFinalize tx, Void)]"
        by (cases rule: ledger_call_cases) auto
      with ok(2,3) cs1 \<open>cs = cs1 @ cs2\<close> True show ?thesis
        by (intro primed) (auto simp: ret_iff)
    qed
  qed
qed

text \<open>The per-input passes of the loop over the descriptors.\<close>

lemma signInputs_passes:
  "signInputs P L lis ti ix newtx tx w = (w', cs, r) \<Longrightarrow>
     passes cs = []
     \<or> (\<exists>p rest. passes cs = p # rest \<and> (p = Nullify newtx \<or> p = Segwit)
            \<and> Nullify True \<notin> set rest)"
proof (induction lis arbitrary: newtx tx w cs)
  case Nil
  then show ?case by (simp add: ret_iff)
next
  case (Cons li lis)
  from Cons.prems have run:
    "andThen (on_input li (toKey P)) (\<lambda>pokey.
     andThen (signInput P L tx li ti (ix pokey) newtx) (\<lambda>(signed, tx).
     signInputs P L lis ti ix False tx)) w = (w', cs, r)"
    by simp
  from run show ?case
  proof (cases rule: andThenE)
    case (fail e)
    then show ?thesis by (auto dest: on_input_calls)
  next
    case (ok w1 cs1 pokey cs2)
    from ok(1) have cs1: "cs1 = []" by (rule on_input_calls)
    from ok(2) show ?thesis
    proof (cases rule: andThenE)
      case (fail e)
      from signInput_passes[OF fail(1)] cs1 ok(3) show ?thesis by auto
    next
      case (ok w2 cs3 res cs4)
      obtain signed tx2 where res: "res = (signed, tx2)" by (cases res)
      from signInput_passes[OF ok(1)] have
        first: "passes cs3 = [Nullify newtx] \<or> passes cs3 = [Segwit]"
        by auto
      from ok(2) res have "signInputs P L lis ti ix False tx2 w2 = (w', cs4, r)" by simp
      from Cons.IH[OF this] have "Nullify True \<notin> set (passes cs4)" by auto
      with first cs1 \<open>cs = cs1 @ cs2\<close> ok(3) show ?thesis by auto
    qed
  qed
qed

lemma passes_flag:
  assumes "passes cs = [] \<or> (\<exists>p rest. passes cs = p # rest \<and> (p = Nullify newtx \<or> p = Segwit)
            \<and> Nullify True \<notin> set rest)"
    and "i < length (passes cs)" and "passes cs ! i = Nullify b"
  shows "b \<longleftrightarrow> i = 0 \<and> newtx"
proof -
  from assms(1,2) obtain p rest where ps: "passes cs = p # rest"
    and p: "p = Nullify newtx \<or> p = Segwit" and rest: "Nullify True \<notin> set rest"
    by auto
  show ?thesis
  proof (cases i)
    case 0
    with ps p assms(3) show ?thesis by auto
  next
    case (Suc j)
    with ps assms(2,3) have "Nullify b \<in> set rest"
      by (auto simp: in_set_conv_nth)
    with rest have "\<not> b" by auto
    with Suc show ?thesis by simp
  qed
qed

lemma signTransaction_inner:
  assumes "signTransaction P L txv lis w = Some (w', cs, r)"
  obtains w1 where "inner_signTransaction P L txv lis (w\<lparr>txlock := True\<rparr>) = (w1, cs, r)"
    and "w' = w1\<lparr>txlock := False\<rparr>"
  using assms by (auto simp: signTransaction_def split: if_splits prod.splits)

lemma entry_statics: "statics P (w\<lparr>txlock := a, signingTX := b\<rparr>) = statics P w"
  by (simp add: statics_def)

lemma filter_start_none:
  "list_all (\<lambda>c. \<not> is_hashTransactionStart c) xs \<Longrightarrow> filter is_hashTransactionStart xs = []"
  by (induction xs) auto

lemma starts_keys:
  "list_all is_getPublicKey (map fst cs) \<Longrightarrow> filter is_hashTransactionStart (map fst cs) = []"
  by (rule filter_start_none) (auto elim!: list_all_mono dest: kind_getPublicKey)

lemma starts_trusted:
  "list_all is_getTrustedInput (map fst cs) \<Longrightarrow> filter is_hashTransactionStart (map fst cs) = []"
  by (rule filter_start_none) (auto elim!: list_all_mono dest: kind_getTrustedInput)

lemma starts_per_input:
  "list_all is_per_input (map fst cs) \<Longrightarrow> filter is_hashTransactionStart (map fst cs) = []"
  by (rule filter_start_none) (auto elim!: list_all_mono dest: kind_per_input)

lemma passes_keys: "list_all is_getPublicKey (map fst cs) \<Longrightarrow> passes cs = []"
  by (rule passes_none) (auto elim!: list_all_mono dest: kind_getPublicKey)

lemma passes_trusted: "list_all is_getTrustedInput (map fst cs) \<Longrightarrow> passes cs = []"
  by (rule passes_none) (auto elim!: list_all_mono dest: kind_getTrustedInput)

lemma quiet_keys:
  "list_all is_getPublicKey (map fst cs) \<Longrightarrow> trusted_calls cs = [] \<and> tokens cs = []"
  by (rule trusted_calls_none) (auto elim!: list_all_mono dest: kind_getPublicKey)

lemma quiet_per_input:
  "list_all is_per_input (map fst cs) \<Longrightarrow> trusted_calls cs = [] \<and> tokens cs = []"
  by (rule trusted_calls_none) (auto elim!: list_all_mono dest: kind_per_input)

lemma quiet_prime:
  "primeWitness L tx hw w = (w', cs, r) \<Longrightarrow>
     trusted_calls cs = [] \<and> tokens cs = []
     \<and> list_all (\<lambda>c. nullify_trusted c = None) (map fst cs)"
  by (erule primeWitness_cases) (auto simp: trusted_calls_def tokens_def map_filter_simps)

text \<open>Every nullify pass of the loop is passed the same \<open>trustedInputs\<close> object.\<close>

lemma same_trusted_hashInput:
  "only (\<lambda>c. \<forall>m. nullify_trusted c = Some m \<longrightarrow> m = ti) (hashInput L tx k c ti isNew)"
  unfolding hashInput_def
  by (intro only_if only_andThen only_ledger_call) simp_all

lemma same_trusted_signInput:
  "only (\<lambda>c. \<forall>m. nullify_trusted c = Some m \<longrightarrow> m = ti) (signInput P L tx li ti ix isNew)"
  unfolding signInput_def requestSignature_def hashSign_def
  by (intro only_andThen only_case_prod only_lift only_ret only_read_input only_ledger_call
        same_trusted_hashInput only_templateInput) simp

lemma same_trusted_signInputs:
  "only (\<lambda>c. \<forall>m. nullify_trusted c = Some m \<longrightarrow> m = ti) (signInputs P L lis ti ix newtx tx)"
  by (induction lis arbitrary: newtx tx)
     (auto intro!: only_ret only_andThen only_case_prod only_on_input same_trusted_signInput)

section \<open>A fold that fails\<close>




section \<open>Runs on the simulated device\<close>

lemma not_isl_iff: "\<not> isl r \<longleftrightarrow> (\<exists>t. r = Inr t)"
  by (cases r) auto

lemma run_plain:
  "map_option (passes \<circ> calls_of)
     (signTransaction sim_prims (sim_ledger None) (MTX tx_plain) [0, 1] (sim_world heap_plain))
   = Some [Nullify True, Nullify False]"
  by code_simp

lemma plain_no_witness: "\<not> any_witness (heap (sim_world heap_plain)) [0, 1]"
  by code_simp

lemma mixed_witness: "any_witness (heap (sim_world heap_mixed)) [0, 1]"
  by code_simp

lemma run_mixed_obs:
  "map_option (\<lambda>x. (isl (result_of x), length (filter is_hashTransactionStart (map fst (calls_of x)))))
     (signTransaction sim_prims (sim_ledger None) (MTX tx_mixed) [0, 1] (sim_world heap_mixed))
   = Some (False, 1)"
  by code_simp

lemma run_plain_obs:
  "map_option (\<lambda>x. (isl (result_of x), trusted_calls (calls_of x), tokens (calls_of x),
                    list_ex (\<lambda>c. \<not> Option.is_none (nullify_trusted c)) (map fst (calls_of x))))
     (signTransaction sim_prims (sim_ledger None) (MTX tx_plain) [0, 1] (sim_world heap_plain))
   = Some (False, [(Some prev_a, 0), (Some prev_b, 1)], [[50, 0], [50, 1]], True)"
  by code_simp

lemma plain_cached:
  "cached_tokens sim_prims (heap (sim_world heap_plain)) [0, 1] [[50, 0], [50, 1]] ''ai'' = Some [50, 0]
   \<and> cached_tokens sim_prims (heap (sim_world heap_plain)) [0, 1] [[50, 0], [50, 1]] ''bii'' = Some [50, 1]"
  by code_simp

section \<open>The input descriptor: construction and refresh\<close>

text \<open>
  C1. The claim: construction fails for every supplied sigHash type other than
  \<open>SIGHASH_ALL\<close> and succeeds, with type \<open>SIGHASH_ALL\<close>, when the type is \<open>SIGHASH_ALL\<close> or
  absent. The code does the opposite for a supplied type: with a valid path, previous
  transaction and index, \<open>fromOptions\<close> with \<open>type = SIGHASH_ALL\<close> throws the assertion
  error whose message is "Ledger only supports SIGHASH_ALL", and with \<open>type = 2\<close>
  (\<open>SIGHASH_NONE\<close>) it returns a descriptor of type 2.
\<close>

theorem fromOptions_type_assertion_inverted:
  "static_fromOptions sim_prims
     (Some \<lparr> o_path = PathArray [44, 0, 0, 0, 0], o_tx = TxObject prev_a, o_index = IndexInt 0,
             o_type = Some hashType_ALL, o_redeem = RedeemAbsent, o_publicKey = KeyAbsent,
             o_witness = None \<rparr>)
     = Inl (AssertionError ''Ledger only supports SIGHASH_ALL'')
   \<and> (case static_fromOptions sim_prims
         (Some \<lparr> o_path = PathArray [44, 0, 0, 0, 0], o_tx = TxObject prev_a,
                 o_index = IndexInt 0, o_type = Some 2, o_redeem = RedeemAbsent,
                 o_publicKey = KeyAbsent, o_witness = None \<rparr>) of
         Inl e \<Rightarrow> None
       | Inr li \<Rightarrow> Some (li_type li)) = Some 2"
  by (simp add: static_fromOptions_def fromOptions_def set_path_def set_tx_def set_index_def
      set_type_def set_redeem_def set_publicKey_def set_witness_def assert_def bindE_def
      hashType_ALL_def new_LedgerTXInput_def)

text \<open>
  C8. \<open>refresh()\<close> empties the five caches (coin, ring, outpoint key, previous script,
  outpoint) in one call and leaves the seven constructor fields (path, tx, index,
  witness, redeem, type, publicKey) as they were.
\<close>

theorem refresh_clears_caches_keeps_fields:
  "coin_cache (refresh this) = None \<and> ring_cache (refresh this) = None
   \<and> key_cache (refresh this) = [] \<and> prev_cache (refresh this) = None
   \<and> outpoint_cache (refresh this) = None
   \<and> li_path (refresh this) = li_path this \<and> li_tx (refresh this) = li_tx this
   \<and> li_index (refresh this) = li_index this \<and> li_witness (refresh this) = li_witness this
   \<and> li_redeem (refresh this) = li_redeem this \<and> li_type (refresh this) = li_type this
   \<and> li_publicKey (refresh this) = li_publicKey this"
  by (simp add: refresh_def)

section \<open>The signing lock and the signing flag\<close>

text \<open>
  C4. A call of \<open>signTransaction\<close> on a free lock takes the lock, runs
  \<open>_signTransaction\<close> with the lock held, and releases it on both exits, whether
  \<open>_signTransaction\<close> returns the transaction or throws. \<open>_signTransaction\<close> never writes
  the lock: it is busy in the state the body starts in and in the state it ends in, so
  a \<open>signTransaction\<close> call arriving in either state does not proceed. The call returns
  the calls and the value of the body, in the state the body left with the lock free,
  and a following \<open>signTransaction\<close> call acquires the lock.
\<close>

theorem signTransaction_releases_lock:
  assumes "\<not> txlock w"
  shows "\<exists>w1 w' cs r.
      inner_signTransaction P L txv ledgerInputs (w\<lparr>txlock := True\<rparr>) = (w1, cs, r)
    \<and> txlock w1
    \<and> keeps txlock (inner_signTransaction P L txv ledgerInputs)
    \<and> signTransaction P L txv2 ledgerInputs2 (w\<lparr>txlock := True\<rparr>) = None
    \<and> signTransaction P L txv2 ledgerInputs2 w1 = None
    \<and> signTransaction P L txv ledgerInputs w = Some (w', cs, r)
    \<and> w' = w1\<lparr>txlock := False\<rparr>
    \<and> \<not> txlock w'
    \<and> signTransaction P L txv2 ledgerInputs2 w' \<noteq> None"
proof -
  obtain w1 cs r where inner:
    "inner_signTransaction P L txv ledgerInputs (w\<lparr>txlock := True\<rparr>) = (w1, cs, r)"
    by (cases "inner_signTransaction P L txv ledgerInputs (w\<lparr>txlock := True\<rparr>)") auto
  from inner_txlock[OF inner] have held: "txlock w1"
    by simp
  have frame: "keeps txlock (inner_signTransaction P L txv ledgerInputs)"
    unfolding keeps_def
  proof
    fix w0
    obtain a b c where "inner_signTransaction P L txv ledgerInputs w0 = (a, b, c)"
      by (cases "inner_signTransaction P L txv ledgerInputs w0") auto
    from inner_txlock[OF this] this
    show "txlock (state_of (inner_signTransaction P L txv ledgerInputs w0)) = txlock w0"
      by (simp add: state_of_def)
  qed
  have busy0: "signTransaction P L txv2 ledgerInputs2 (w\<lparr>txlock := True\<rparr>) = None"
    by (simp add: signTransaction_def)
  from held have busy1: "signTransaction P L txv2 ledgerInputs2 w1 = None"
    by (simp add: signTransaction_def)
  have run: "signTransaction P L txv ledgerInputs w = Some (w1\<lparr>txlock := False\<rparr>, cs, r)"
    using assms inner by (simp add: signTransaction_def)
  have free: "signTransaction P L txv2 ledgerInputs2 (w1\<lparr>txlock := False\<rparr>) \<noteq> None"
    by (simp add: signTransaction_def split: prod.splits)
  from inner held frame busy0 busy1 run free show ?thesis
    by (intro exI[of _ w1] exI[of _ "w1\<lparr>txlock := False\<rparr>"] exI[of _ cs] exI[of _ r]) simp
qed

text \<open>
  A run on the simulated device that refuses its third call, the \<open>getTrustedInput\<close> call
  for the plain descriptor.
\<close>

lemma run_fail_sim:
  "map_option result_of
     (signTransaction sim_prims (sim_ledger (Some 2)) (MTX tx_mixed) [0, 1] (sim_world heap_mixed))
   = Some (Inl (External ''status word''))"
  by code_simp

text \<open>The same run on a device that answers every call.\<close>

lemma run_mixed_sim:
  "map_option (isl \<circ> result_of)
     (signTransaction sim_prims (sim_ledger None) (MTX tx_mixed) [0, 1] (sim_world heap_mixed))
   = Some False"
  by code_simp

theorem signTransaction_releases_lock_witness:
  "\<not> txlock (sim_world heap_mixed)
   \<and> (\<exists>w1 w' cs.
         inner_signTransaction sim_prims (sim_ledger (Some 2)) (MTX tx_mixed) [0, 1]
           ((sim_world heap_mixed)\<lparr>txlock := True\<rparr>) = (w1, cs, Inl (External ''status word''))
       \<and> txlock w1
       \<and> signTransaction sim_prims (sim_ledger (Some 2)) (MTX tx_mixed) [0, 1] w1 = None
       \<and> signTransaction sim_prims (sim_ledger (Some 2)) (MTX tx_mixed) [0, 1]
           (sim_world heap_mixed) = Some (w', cs, Inl (External ''status word''))
       \<and> \<not> txlock w'
       \<and> signTransaction sim_prims (sim_ledger (Some 2)) (MTX tx_mixed) [0, 1] w' \<noteq> None)
   \<and> (\<exists>w1 w' cs tx'.
         inner_signTransaction sim_prims (sim_ledger None) (MTX tx_mixed) [0, 1]
           ((sim_world heap_mixed)\<lparr>txlock := True\<rparr>) = (w1, cs, Inr tx')
       \<and> txlock w1
       \<and> signTransaction sim_prims (sim_ledger None) (MTX tx_mixed) [0, 1] w1 = None
       \<and> signTransaction sim_prims (sim_ledger None) (MTX tx_mixed) [0, 1]
           (sim_world heap_mixed) = Some (w', cs, Inr tx')
       \<and> \<not> txlock w'
       \<and> signTransaction sim_prims (sim_ledger None) (MTX tx_mixed) [0, 1] w' \<noteq> None)"
proof -
  have free: "\<not> txlock (sim_world heap_mixed)"
    by (simp add: sim_world_def)
  from signTransaction_releases_lock[OF free, where P = sim_prims and L = "sim_ledger (Some 2)"
      and txv = "MTX tx_mixed" and ledgerInputs = "[0, 1]" and ?txv2.0 = "MTX tx_mixed"
      and ?ledgerInputs2.0 = "[0, 1]"]
  obtain w1 w' cs r where
    a: "inner_signTransaction sim_prims (sim_ledger (Some 2)) (MTX tx_mixed) [0, 1]
           ((sim_world heap_mixed)\<lparr>txlock := True\<rparr>) = (w1, cs, r)"
       "txlock w1"
       "signTransaction sim_prims (sim_ledger (Some 2)) (MTX tx_mixed) [0, 1] w1 = None"
       "signTransaction sim_prims (sim_ledger (Some 2)) (MTX tx_mixed) [0, 1]
           (sim_world heap_mixed) = Some (w', cs, r)"
       "\<not> txlock w'"
       "signTransaction sim_prims (sim_ledger (Some 2)) (MTX tx_mixed) [0, 1] w' \<noteq> None"
    by blast
  from a(4) run_fail_sim have ra: "r = Inl (External ''status word'')"
    by (simp add: result_of_def)
  from signTransaction_releases_lock[OF free, where P = sim_prims and L = "sim_ledger None"
      and txv = "MTX tx_mixed" and ledgerInputs = "[0, 1]" and ?txv2.0 = "MTX tx_mixed"
      and ?ledgerInputs2.0 = "[0, 1]"]
  obtain v1 v' ds q where
    b: "inner_signTransaction sim_prims (sim_ledger None) (MTX tx_mixed) [0, 1]
           ((sim_world heap_mixed)\<lparr>txlock := True\<rparr>) = (v1, ds, q)"
       "txlock v1"
       "signTransaction sim_prims (sim_ledger None) (MTX tx_mixed) [0, 1] v1 = None"
       "signTransaction sim_prims (sim_ledger None) (MTX tx_mixed) [0, 1]
           (sim_world heap_mixed) = Some (v', ds, q)"
       "\<not> txlock v'"
       "signTransaction sim_prims (sim_ledger None) (MTX tx_mixed) [0, 1] v' \<noteq> None"
    by blast
  from b(4) run_mixed_sim obtain tx' where rb: "q = Inr tx'"
    by (cases q) (auto simp: result_of_def)
  from free a ra b rb show ?thesis
    by blast
qed

text \<open>
  C9. When \<open>_signTransaction\<close> throws after its entry assertion (the transaction is an
  \<open>MTX\<close>), \<open>signingTX\<close> is still \<open>true\<close> after \<open>signTransaction\<close> has returned, although
  the lock is released; only a run that completes sets it back to \<open>false\<close>.
\<close>

theorem signingTX_stays_set_after_failure:
  assumes "signTransaction P L (MTX tx) ledgerInputs w = Some (w', cs, r)"
  shows "signingTX w' = (case r of Inl e \<Rightarrow> True | Inr t \<Rightarrow> False) \<and> \<not> txlock w'"
proof -
  from assms obtain w1 where
    inner: "inner_signTransaction P L (MTX tx) ledgerInputs (w\<lparr>txlock := True\<rparr>) = (w1, cs, r)"
    and w': "w' = w1\<lparr>txlock := False\<rparr>"
    by (auto simp: signTransaction_def split: if_splits prod.splits)
  from inner_signingTX[OF inner] w' show ?thesis by simp
qed

theorem signingTX_stays_set_after_failure_witness:
  "\<exists>w' cs. signTransaction sim_prims (sim_ledger (Some 2)) (MTX tx_mixed) [0, 1]
              (sim_world heap_mixed) = Some (w', cs, Inl (External ''status word''))
     \<and> signingTX w' \<and> \<not> txlock w'"
proof -
  from run_fail_sim obtain w' cs where
    run: "signTransaction sim_prims (sim_ledger (Some 2)) (MTX tx_mixed) [0, 1]
            (sim_world heap_mixed) = Some (w', cs, Inl (External ''status word''))"
    by (cases "signTransaction sim_prims (sim_ledger (Some 2)) (MTX tx_mixed) [0, 1]
            (sim_world heap_mixed)") (auto simp: result_of_def)
  from signingTX_stays_set_after_failure[OF run] run show ?thesis by auto
qed

section \<open>Folding the signature\<close>

text \<open>
  C7. Take an input for which \<open>signInput\<close> has come to the fold: \<open>ring\<close>, \<open>coin\<close>, the
  templated transaction \<open>tx1\<close>, the index \<open>i\<close>, the classification \<open>c\<close> and the signature
  \<open>sig\<close> are the values of that run. If the input is of the redeem case (P2SH or
  witness-P2SH) and \<open>signVector\<close> folds the signature into the stack left after the pop,
  then \<open>redeem\<close> is set, the vector is the witness for witness-P2SH and the script-sig for
  P2SH, \<open>signInput\<close> returns \<open>true\<close>, and the transaction it leaves is the templated one
  with that vector of input \<open>i\<close> replaced by what \<open>signVector\<close> answered followed by the
  item popped from the templated stack: the last element written back is that redeem
  script.
\<close>

theorem redeem_script_is_last:
  assumes pre: "requestSignature P L tx ledgerInput trustedInputs index isNew w
                  = (w', cs, Inr (ring, coin, tx1, i, c, sig))"
    and redeem: "redeem_case P (coin_script coin) (inputs tx1 ! i)"
    and fold: "signVector P tx1 (v_prev c)
                 (snd (pop (toStack (v_vector c) (inputs tx1 ! i)))) sig ring = Inr (Some res)"
  shows "v_redeem c
       \<and> v_vector c = (if witness_p2sh P (coin_script coin) (inputs tx1 ! i)
                        then Witness else ScriptSig)
       \<and> index = Some i \<and> i < length (inputs tx1)
       \<and> (\<exists>tx'. signInput P L tx ledgerInput trustedInputs index isNew w
                   = (w', cs, Inr (True, tx'))
              \<and> tx' = tx1\<lparr>inputs := (inputs tx1)
                        [i := fromStack (v_vector c)
                                (res @ [fst (pop (toStack (v_vector c) (inputs tx1 ! i)))])
                                (inputs tx1 ! i)]\<rparr>
              \<and> toStack (v_vector c) (inputs tx' ! i)
                  = res @ [fst (pop (toStack (v_vector c) (inputs tx1 ! i)))]
              \<and> last (toStack (v_vector c) (inputs tx' ! i))
                  = fst (pop (toStack (v_vector c) (inputs tx1 ! i))))"
proof -
  from requestSignature_success[OF pre] have
    ix: "index = Some i" "i < length (inputs tx1)"
    and cl: "classify P (coin_script coin) (inputs tx1 ! i) = Inr c"
    by auto
  from classify_redeem_case[OF cl] redeem have r: "v_redeem c"
    by simp
  have v: "v_vector c = (if witness_p2sh P (coin_script coin) (inputs tx1 ! i)
                        then Witness else ScriptSig)"
    using cl r
    by (auto simp: classify_def witness_p2sh_def deciding_script_def bindE_def
        split: if_splits option.splits)
  define tx' where
    "tx' = tx1\<lparr>inputs := (inputs tx1)
                        [i := fromStack (v_vector c)
                                (res @ [fst (pop (toStack (v_vector c) (inputs tx1 ! i)))])
                                (inputs tx1 ! i)]\<rparr>"
  from signInput_fold[OF pre] foldSignature_redeem_Some[OF r fold]
  have run: "signInput P L tx ledgerInput trustedInputs index isNew w = (w', cs, Inr (True, tx'))"
    by (simp add: tx'_def)
  from ix(2) have st: "toStack (v_vector c) (inputs tx' ! i)
                  = res @ [fst (pop (toStack (v_vector c) (inputs tx1 ! i)))]"
    by (simp add: tx'_def toStack_fromStack)
  then have la: "last (toStack (v_vector c) (inputs tx' ! i))
                  = fst (pop (toStack (v_vector c) (inputs tx1 ! i)))"
    by simp
  from r v ix run st la show ?thesis
    unfolding tx'_def by blast
qed

text \<open>
  A pay-to-script-hash input, and a witness script-hash program nested in
  pay-to-script-hash, on the simulated device.
\<close>

lemma request_p2sh:
  "result_of (requestSignature sim_prims (sim_ledger None) tx_p2sh 0 Map.empty (Some 0) True
       (sim_world (\<lambda>_. sim_p2sh_descriptor)))
   = Inr (\<lparr> ring_publicKey = [2, 7], ring_script = Some (Raw [2, 7]), ring_witness = False \<rparr>,
          \<lparr> coin_script = Scripthash [9] \<rparr>,
          \<lparr> inputs = [(sim_input prev_b 0)\<lparr>in_script := [Buffer [], Buffer [2, 7]]\<rparr>],
             outputs = [] \<rparr>,
          0,
          \<lparr> v_prev = Raw [2, 7], v_vector = ScriptSig, v_redeem = True, v_witness = False \<rparr>,
          [48, 1])"
  by code_simp

lemma redeem_p2sh:
  "redeem_case sim_prims (Scripthash [9])
     ((sim_input prev_b 0)\<lparr>in_script := [Buffer [], Buffer [2, 7]]\<rparr>)
   \<and> \<not> witness_p2sh sim_prims (Scripthash [9])
     ((sim_input prev_b 0)\<lparr>in_script := [Buffer [], Buffer [2, 7]]\<rparr>)"
  by code_simp

lemma fold_p2sh:
  "signVector sim_prims
     \<lparr> inputs = [(sim_input prev_b 0)\<lparr>in_script := [Buffer [], Buffer [2, 7]]\<rparr>], outputs = [] \<rparr>
     (Raw [2, 7]) [Buffer []] [48, 1]
     \<lparr> ring_publicKey = [2, 7], ring_script = Some (Raw [2, 7]), ring_witness = False \<rparr>
   = Inr (Some [Buffer [48, 1]])"
  by code_simp

lemma request_p2wsh:
  "result_of (requestSignature sim_prims (sim_ledger None) tx_p2wsh 0 Map.empty (Some 0) False
       (sim_world (\<lambda>_. sim_p2wsh_descriptor)))
   = Inr (\<lparr> ring_publicKey = [2, 7], ring_script = Some (Raw [2, 7]), ring_witness = True \<rparr>,
          \<lparr> coin_script = Scripthash [9] \<rparr>,
          tx_p2wsh,
          0,
          \<lparr> v_prev = Raw [2, 7], v_vector = Witness, v_redeem = True, v_witness = True \<rparr>,
          [48, 1])"
  by code_simp

lemma redeem_p2wsh:
  "redeem_case sim_prims (Scripthash [9]) (inputs tx_p2wsh ! 0)
   \<and> witness_p2sh sim_prims (Scripthash [9]) (inputs tx_p2wsh ! 0)"
  by code_simp

lemma fold_p2wsh:
  "signVector sim_prims tx_p2wsh (Raw [2, 7]) [Buffer []] [48, 1]
     \<lparr> ring_publicKey = [2, 7], ring_script = Some (Raw [2, 7]), ring_witness = True \<rparr>
   = Inr (Some [Buffer [48, 1]])"
  by code_simp

theorem redeem_script_is_last_witness:
  "(\<exists>w' cs.
      requestSignature sim_prims (sim_ledger None) tx_p2sh 0 Map.empty (Some 0) True
        (sim_world (\<lambda>_. sim_p2sh_descriptor))
      = (w', cs,
         Inr (\<lparr> ring_publicKey = [2, 7], ring_script = Some (Raw [2, 7]), ring_witness = False \<rparr>,
              \<lparr> coin_script = Scripthash [9] \<rparr>,
              \<lparr> inputs = [(sim_input prev_b 0)\<lparr>in_script := [Buffer [], Buffer [2, 7]]\<rparr>],
                 outputs = [] \<rparr>,
              0,
              \<lparr> v_prev = Raw [2, 7], v_vector = ScriptSig, v_redeem = True, v_witness = False \<rparr>,
              [48, 1]))
    \<and> redeem_case sim_prims (Scripthash [9])
         ((sim_input prev_b 0)\<lparr>in_script := [Buffer [], Buffer [2, 7]]\<rparr>)
    \<and> signVector sim_prims
         \<lparr> inputs = [(sim_input prev_b 0)\<lparr>in_script := [Buffer [], Buffer [2, 7]]\<rparr>],
            outputs = [] \<rparr>
         (Raw [2, 7]) [Buffer []] [48, 1]
         \<lparr> ring_publicKey = [2, 7], ring_script = Some (Raw [2, 7]), ring_witness = False \<rparr>
       = Inr (Some [Buffer [48, 1]])
    \<and> signInput sim_prims (sim_ledger None) tx_p2sh 0 Map.empty (Some 0) True
        (sim_world (\<lambda>_. sim_p2sh_descriptor))
      = (w', cs,
         Inr (True, \<lparr> inputs = [(sim_input prev_b 0)\<lparr>in_script := [Buffer [48, 1], Buffer [2, 7]]\<rparr>],
                       outputs = [] \<rparr>)))
   \<and> (\<exists>w' cs.
      requestSignature sim_prims (sim_ledger None) tx_p2wsh 0 Map.empty (Some 0) False
        (sim_world (\<lambda>_. sim_p2wsh_descriptor))
      = (w', cs,
         Inr (\<lparr> ring_publicKey = [2, 7], ring_script = Some (Raw [2, 7]), ring_witness = True \<rparr>,
              \<lparr> coin_script = Scripthash [9] \<rparr>,
              tx_p2wsh,
              0,
              \<lparr> v_prev = Raw [2, 7], v_vector = Witness, v_redeem = True, v_witness = True \<rparr>,
              [48, 1]))
    \<and> redeem_case sim_prims (Scripthash [9]) (inputs tx_p2wsh ! 0)
    \<and> signVector sim_prims tx_p2wsh (Raw [2, 7]) [Buffer []] [48, 1]
         \<lparr> ring_publicKey = [2, 7], ring_script = Some (Raw [2, 7]), ring_witness = True \<rparr>
       = Inr (Some [Buffer [48, 1]])
    \<and> signInput sim_prims (sim_ledger None) tx_p2wsh 0 Map.empty (Some 0) False
        (sim_world (\<lambda>_. sim_p2wsh_descriptor))
      = (w', cs,
         Inr (True, \<lparr> inputs = [(sim_input prev_b 0)\<lparr>in_script := [Buffer [0, 9]],
                                    in_witness := [Buffer [48, 1], Buffer [2, 7]]\<rparr>],
                       outputs = [] \<rparr>)))"
proof -
  obtain w' cs r where
    p0: "requestSignature sim_prims (sim_ledger None) tx_p2sh 0 Map.empty (Some 0) True
            (sim_world (\<lambda>_. sim_p2sh_descriptor)) = (w', cs, r)"
    using prod_cases3 by blast
  from p0 request_p2sh have pre:
    "requestSignature sim_prims (sim_ledger None) tx_p2sh 0 Map.empty (Some 0) True
        (sim_world (\<lambda>_. sim_p2sh_descriptor))
      = (w', cs,
         Inr (\<lparr> ring_publicKey = [2, 7], ring_script = Some (Raw [2, 7]), ring_witness = False \<rparr>,
              \<lparr> coin_script = Scripthash [9] \<rparr>,
              \<lparr> inputs = [(sim_input prev_b 0)\<lparr>in_script := [Buffer [], Buffer [2, 7]]\<rparr>],
                 outputs = [] \<rparr>,
              0,
              \<lparr> v_prev = Raw [2, 7], v_vector = ScriptSig, v_redeem = True, v_witness = False \<rparr>,
              [48, 1]))"
    by (simp add: result_of_def)
  have red: "redeem_case sim_prims
      (coin_script \<lparr> coin_script = Scripthash [9] \<rparr>)
      (inputs \<lparr> inputs = [(sim_input prev_b 0)\<lparr>in_script := [Buffer [], Buffer [2, 7]]\<rparr>],
                 outputs = [] \<rparr> ! 0)"
    using redeem_p2sh by simp
  have fold: "signVector sim_prims
      \<lparr> inputs = [(sim_input prev_b 0)\<lparr>in_script := [Buffer [], Buffer [2, 7]]\<rparr>], outputs = [] \<rparr>
      (v_prev \<lparr> v_prev = Raw [2, 7], v_vector = ScriptSig, v_redeem = True, v_witness = False \<rparr>)
      (snd (pop (toStack
         (v_vector \<lparr> v_prev = Raw [2, 7], v_vector = ScriptSig, v_redeem = True, v_witness = False \<rparr>)
         (inputs \<lparr> inputs = [(sim_input prev_b 0)\<lparr>in_script := [Buffer [], Buffer [2, 7]]\<rparr>],
                    outputs = [] \<rparr> ! 0))))
      [48, 1]
      \<lparr> ring_publicKey = [2, 7], ring_script = Some (Raw [2, 7]), ring_witness = False \<rparr>
      = Inr (Some [Buffer [48, 1]])"
    using fold_p2sh by (simp add: pop_def toStack_def)
  from redeem_script_is_last[OF pre red fold]
  have run: "signInput sim_prims (sim_ledger None) tx_p2sh 0 Map.empty (Some 0) True
        (sim_world (\<lambda>_. sim_p2sh_descriptor))
      = (w', cs,
         Inr (True, \<lparr> inputs = [(sim_input prev_b 0)\<lparr>in_script := [Buffer [48, 1], Buffer [2, 7]]\<rparr>],
                       outputs = [] \<rparr>))"
    by (simp add: pop_def toStack_def fromStack_def)
  obtain v' ds q where
    q0: "requestSignature sim_prims (sim_ledger None) tx_p2wsh 0 Map.empty (Some 0) False
            (sim_world (\<lambda>_. sim_p2wsh_descriptor)) = (v', ds, q)"
    using prod_cases3 by blast
  from q0 request_p2wsh have pre2:
    "requestSignature sim_prims (sim_ledger None) tx_p2wsh 0 Map.empty (Some 0) False
        (sim_world (\<lambda>_. sim_p2wsh_descriptor))
      = (v', ds,
         Inr (\<lparr> ring_publicKey = [2, 7], ring_script = Some (Raw [2, 7]), ring_witness = True \<rparr>,
              \<lparr> coin_script = Scripthash [9] \<rparr>,
              tx_p2wsh,
              0,
              \<lparr> v_prev = Raw [2, 7], v_vector = Witness, v_redeem = True, v_witness = True \<rparr>,
              [48, 1]))"
    by (simp add: result_of_def)
  have red2: "redeem_case sim_prims (coin_script \<lparr> coin_script = Scripthash [9] \<rparr>)
      (inputs tx_p2wsh ! 0)"
    using redeem_p2wsh by simp
  have fold2: "signVector sim_prims tx_p2wsh
      (v_prev \<lparr> v_prev = Raw [2, 7], v_vector = Witness, v_redeem = True, v_witness = True \<rparr>)
      (snd (pop (toStack
         (v_vector \<lparr> v_prev = Raw [2, 7], v_vector = Witness, v_redeem = True, v_witness = True \<rparr>)
         (inputs tx_p2wsh ! 0))))
      [48, 1]
      \<lparr> ring_publicKey = [2, 7], ring_script = Some (Raw [2, 7]), ring_witness = True \<rparr>
      = Inr (Some [Buffer [48, 1]])"
    using fold_p2wsh by (simp add: pop_def toStack_def tx_p2wsh_def)
  from redeem_script_is_last[OF pre2 red2 fold2]
  have run2: "signInput sim_prims (sim_ledger None) tx_p2wsh 0 Map.empty (Some 0) False
        (sim_world (\<lambda>_. sim_p2wsh_descriptor))
      = (v', ds,
         Inr (True, \<lparr> inputs = [(sim_input prev_b 0)\<lparr>in_script := [Buffer [0, 9]],
                                    in_witness := [Buffer [48, 1], Buffer [2, 7]]\<rparr>],
                       outputs = [] \<rparr>))"
    by (simp add: pop_def toStack_def fromStack_def tx_p2wsh_def)
  from pre redeem_p2sh fold_p2sh run pre2 redeem_p2wsh fold_p2wsh run2 show ?thesis
    by blast
qed

section \<open>The first-round flag\<close>

text \<open>
  C3, as amended. Among the per-input hashing passes of a run
  (\<open>hashTransactionStartNullify\<close> and \<open>hashTransactionStartSegwit\<close> calls, in the order
  issued), a \<open>hashTransactionStartNullify\<close> call is passed \<open>isNew = true\<close> exactly when it
  is the first pass of the run and no input descriptor has \<open>witness = true\<close>. So every
  \<open>hashTransactionStartNullify\<close> call but the first is passed \<open>false\<close>, and the first is
  passed \<open>true\<close> only in a run without witness descriptors and with no
  \<open>hashTransactionStartSegwit\<close> call before it: with a witness descriptor the shared
  priming pass has taken \<open>firstRound = true\<close>.
\<close>

theorem first_round_flag:
  assumes "signTransaction P L (MTX tx) ledgerInputs w = Some (w', cs, r)"
  shows "\<forall>i b. i < length (passes cs) \<and> passes cs ! i = Nullify b \<longrightarrow>
           (b \<longleftrightarrow> i = 0 \<and> \<not> any_witness (heap w) ledgerInputs)"
proof -
  from assms obtain w0 where
    inner: "inner_signTransaction P L (MTX tx) ledgerInputs (w\<lparr>txlock := True\<rparr>) = (w0, cs, r)"
    by (rule signTransaction_inner)
  from inner show ?thesis
  proof (cases rule: inner_phases)
    case (keys e)
    from onlyD[OF only_updatePublicKeys keys(1)] have "passes cs = []"
      by (intro passes_none) (auto elim!: list_all_mono dest: kind_getPublicKey)
    then show ?thesis by simp
  next
    case (trusted w1 cs1 cs2 e)
    from onlyD[OF only_updatePublicKeys trusted(1)] have "passes cs1 = []"
      by (intro passes_none) (auto elim!: list_all_mono dest: kind_getPublicKey)
    moreover from onlyD[OF only_collectTrustedInputs trusted(2)] have "passes cs2 = []"
      by (intro passes_none) (auto elim!: list_all_mono dest: kind_getTrustedInput)
    ultimately show ?thesis using trusted(3) by simp
  next
    case (prime w1 cs1 w2 cs2 ti hw cs3 e)
    from onlyD[OF only_updatePublicKeys prime(1)] have "passes cs1 = []"
      by (intro passes_none) (auto elim!: list_all_mono dest: kind_getPublicKey)
    moreover from onlyD[OF only_collectTrustedInputs prime(2)] have "passes cs2 = []"
      by (intro passes_none) (auto elim!: list_all_mono dest: kind_getTrustedInput)
    moreover from prime(3) have "passes cs3 = []"
      by (cases rule: primeWitness_cases) auto
    ultimately show ?thesis using prime(4) by simp
  next
    case (inputs w1 cs1 w2 cs2 ti hw w3 cs3 newtx w4 cs4)
    from onlyD[OF only_updatePublicKeys inputs(1)] have "passes cs1 = []"
      by (intro passes_none) (auto elim!: list_all_mono dest: kind_getPublicKey)
    moreover from onlyD[OF only_collectTrustedInputs inputs(2)] have "passes cs2 = []"
      by (intro passes_none) (auto elim!: list_all_mono dest: kind_getTrustedInput)
    moreover from inputs(3) have "passes cs3 = []" and newtx: "newtx = (\<not> hw)"
      by (cases rule: primeWitness_cases; simp)+
    ultimately have ps: "passes cs = passes cs4" using inputs(5) by simp
    from keepsD[OF statics_updatePublicKeys inputs(1)]
    have s1: "statics P w1 = statics P w" by (simp add: entry_statics)
    from collect_spec[OF inputs(2)] have "hw = any_witness (heap w1) ledgerInputs" by simp
    with statics_any_witness[OF s1] have hw: "hw = any_witness (heap w) ledgerInputs" by simp
    from signInputs_passes[OF inputs(4)] show ?thesis
      unfolding ps[symmetric] newtx hw
      by (intro allI impI) (elim conjE, rule passes_flag, assumption+)
  qed
qed

text \<open>The run with two plain descriptors.\<close>

theorem first_round_flag_witness:
  "\<exists>w' cs r.
      signTransaction sim_prims (sim_ledger None) (MTX tx_plain) [0, 1] (sim_world heap_plain)
        = Some (w', cs, r)
    \<and> passes cs = [Nullify True, Nullify False]
    \<and> \<not> any_witness (heap (sim_world heap_plain)) [0, 1]
    \<and> (\<forall>i b. i < length (passes cs) \<and> passes cs ! i = Nullify b \<longrightarrow>
           (b \<longleftrightarrow> i = 0 \<and> \<not> any_witness (heap (sim_world heap_plain)) [0, 1]))"
proof -
  from run_plain obtain w' cs r where
    run: "signTransaction sim_prims (sim_ledger None) (MTX tx_plain) [0, 1]
            (sim_world heap_plain) = Some (w', cs, r)"
    and ps: "passes cs = [Nullify True, Nullify False]"
    by (cases "signTransaction sim_prims (sim_ledger None) (MTX tx_plain) [0, 1]
            (sim_world heap_plain)") (auto simp: calls_of_def)
  from first_round_flag[OF run] run ps plain_no_witness show ?thesis by blast
qed

text \<open>
  The claim as stated fails on the run with a witness descriptor followed by a plain
  one: its only \<open>hashTransactionStartNullify\<close> call is passed \<open>isNew = false\<close>.
\<close>

theorem first_round_flag_counterexample:
  "map_option (nullify_flags \<circ> calls_of)
     (signTransaction sim_prims (sim_ledger None) (MTX tx_mixed) [0, 1] (sim_world heap_mixed))
   = Some [False]
   \<and> li_witness (heap_mixed 0) \<and> \<not> li_witness (heap_mixed 1)"
  by code_simp

section \<open>The shared priming pass\<close>

text \<open>
  C5. A run issues \<open>hashTransactionStart\<close> at most once, and never when no input descriptor
  has \<open>witness = true\<close>. When some descriptor has \<open>witness = true\<close> and the run reaches the
  per-input loop (it returns the transaction, or a per-input hashing pass was issued),
  its calls are: public-key and trusted-input calls only, then one
  \<open>hashTransactionStart(tx, {}, true, true)\<close> followed by \<open>hashOutputFinalize(tx)\<close>, both
  answered, then per-input calls only; the number of witness descriptors plays no role.
\<close>

theorem priming_pass_once:
  assumes "signTransaction P L (MTX tx) ledgerInputs w = Some (w', cs, r)"
  shows "length (filter is_hashTransactionStart (map fst cs)) \<le> 1
       \<and> (\<not> any_witness (heap w) ledgerInputs \<longrightarrow>
             filter is_hashTransactionStart (map fst cs) = [])
       \<and> (any_witness (heap w) ledgerInputs \<and> ((\<exists>t. r = Inr t) \<or> passes cs \<noteq> []) \<longrightarrow>
             (\<exists>pre post.
                cs = pre @ [(HashTransactionStart tx Map.empty True True, Void),
                            (HashOutputFinalize tx, Void)] @ post
              \<and> list_all (\<lambda>c. is_getPublicKey c \<or> is_getTrustedInput c) (map fst pre)
              \<and> list_all is_per_input (map fst post)))"
proof -
  from assms obtain w0 where
    inner: "inner_signTransaction P L (MTX tx) ledgerInputs (w\<lparr>txlock := True\<rparr>) = (w0, cs, r)"
    by (rule signTransaction_inner)
  from inner show ?thesis
  proof (cases rule: inner_phases)
    case (keys e)
    note k = onlyD[OF only_updatePublicKeys keys(1)]
    from starts_keys[OF k] passes_keys[OF k] keys(2) show ?thesis by simp
  next
    case (trusted w1 cs1 cs2 e)
    note k = onlyD[OF only_updatePublicKeys trusted(1)]
    note t = onlyD[OF only_collectTrustedInputs trusted(2)]
    from starts_keys[OF k] passes_keys[OF k] starts_trusted[OF t] passes_trusted[OF t]
      trusted(3,4)
    show ?thesis by simp
  next
    case (prime w1 cs1 w2 cs2 ti hw cs3 e)
    note k = onlyD[OF only_updatePublicKeys prime(1)]
    note t = onlyD[OF only_collectTrustedInputs prime(2)]
    from keepsD[OF statics_updatePublicKeys prime(1)]
    have s1: "statics P w1 = statics P w" by (simp add: entry_statics)
    from collect_spec[OF prime(2)] have "hw = any_witness (heap w1) ledgerInputs" by simp
    with statics_any_witness[OF s1] have hw: "hw = any_witness (heap w) ledgerInputs" by simp
    from prime(3) have "length (filter is_hashTransactionStart (map fst cs3)) \<le> 1
        \<and> (\<not> hw \<longrightarrow> cs3 = []) \<and> passes cs3 = []"
      by (cases rule: primeWitness_cases) auto
    with starts_keys[OF k] passes_keys[OF k] starts_trusted[OF t] passes_trusted[OF t]
      prime(4,5) hw
    show ?thesis by auto
  next
    case (inputs w1 cs1 w2 cs2 ti hw w3 cs3 newtx w4 cs4)
    note k = onlyD[OF only_updatePublicKeys inputs(1)]
    note t = onlyD[OF only_collectTrustedInputs inputs(2)]
    note p = onlyD[OF only_signInputs inputs(4)]
    from keepsD[OF statics_updatePublicKeys inputs(1)]
    have s1: "statics P w1 = statics P w" by (simp add: entry_statics)
    from collect_spec[OF inputs(2)] have "hw = any_witness (heap w1) ledgerInputs" by simp
    with statics_any_witness[OF s1] have hw: "hw = any_witness (heap w) ledgerInputs" by simp
    have pre: "list_all (\<lambda>c. is_getPublicKey c \<or> is_getTrustedInput c) (map fst (cs1 @ cs2))"
      using k t by (auto simp: list_all_iff)
    from inputs(3) show ?thesis
    proof (cases rule: primeWitness_cases)
      case skipped
      with starts_keys[OF k] starts_trusted[OF t] starts_per_input[OF p] inputs(5) hw
      show ?thesis by simp
    next
      case null
      then show ?thesis by simp
    next
      case (start_threw e)
      then show ?thesis by simp
    next
      case (finalize_threw e)
      then show ?thesis by simp
    next
      case primed
      have cs: "cs = (cs1 @ cs2) @ [(HashTransactionStart tx Map.empty True True, Void),
                            (HashOutputFinalize tx, Void)] @ cs4"
        using inputs(5) primed(2) by simp
      have "length (filter is_hashTransactionStart (map fst cs)) \<le> 1"
        using starts_keys[OF k] starts_trusted[OF t] starts_per_input[OF p] inputs(5) primed(2)
        by simp
      moreover have "any_witness (heap w) ledgerInputs"
        using primed(1) hw by simp
      moreover have "\<exists>pre post.
                cs = pre @ [(HashTransactionStart tx Map.empty True True, Void),
                            (HashOutputFinalize tx, Void)] @ post
              \<and> list_all (\<lambda>c. is_getPublicKey c \<or> is_getTrustedInput c) (map fst pre)
              \<and> list_all is_per_input (map fst post)"
        using cs pre p by blast
      ultimately show ?thesis by simp
    qed
  qed
qed

text \<open>The mixed run primes once; the plain run does not prime.\<close>

theorem priming_pass_once_witness:
  "(\<exists>w' cs t.
      signTransaction sim_prims (sim_ledger None) (MTX tx_mixed) [0, 1] (sim_world heap_mixed)
        = Some (w', cs, Inr t)
    \<and> any_witness (heap (sim_world heap_mixed)) [0, 1]
    \<and> length (filter is_hashTransactionStart (map fst cs)) = 1
    \<and> (\<exists>pre post.
          cs = pre @ [(HashTransactionStart tx_mixed Map.empty True True, Void),
                      (HashOutputFinalize tx_mixed, Void)] @ post
        \<and> list_all (\<lambda>c. is_getPublicKey c \<or> is_getTrustedInput c) (map fst pre)
        \<and> list_all is_per_input (map fst post)))
   \<and> (\<exists>w' cs r.
      signTransaction sim_prims (sim_ledger None) (MTX tx_plain) [0, 1] (sim_world heap_plain)
        = Some (w', cs, r)
    \<and> \<not> any_witness (heap (sim_world heap_plain)) [0, 1]
    \<and> filter is_hashTransactionStart (map fst cs) = [])"
proof -
  from run_mixed_obs obtain w' cs t where
    run: "signTransaction sim_prims (sim_ledger None) (MTX tx_mixed) [0, 1]
            (sim_world heap_mixed) = Some (w', cs, Inr t)"
    and n: "length (filter is_hashTransactionStart (map fst cs)) = 1"
    by (cases "signTransaction sim_prims (sim_ledger None) (MTX tx_mixed) [0, 1]
            (sim_world heap_mixed)")
       (auto simp: calls_of_def result_of_def not_isl_iff)
  from priming_pass_once[OF run] mixed_witness
  have "\<exists>pre post.
          cs = pre @ [(HashTransactionStart tx_mixed Map.empty True True, Void),
                      (HashOutputFinalize tx_mixed, Void)] @ post
        \<and> list_all (\<lambda>c. is_getPublicKey c \<or> is_getTrustedInput c) (map fst pre)
        \<and> list_all is_per_input (map fst post)"
    by blast
  with run n mixed_witness have first: "\<exists>w' cs t.
      signTransaction sim_prims (sim_ledger None) (MTX tx_mixed) [0, 1] (sim_world heap_mixed)
        = Some (w', cs, Inr t)
    \<and> any_witness (heap (sim_world heap_mixed)) [0, 1]
    \<and> length (filter is_hashTransactionStart (map fst cs)) = 1
    \<and> (\<exists>pre post.
          cs = pre @ [(HashTransactionStart tx_mixed Map.empty True True, Void),
                      (HashOutputFinalize tx_mixed, Void)] @ post
        \<and> list_all (\<lambda>c. is_getPublicKey c \<or> is_getTrustedInput c) (map fst pre)
        \<and> list_all is_per_input (map fst post))"
    by blast
  from run_plain obtain w2 cs2 r2 where
    run2: "signTransaction sim_prims (sim_ledger None) (MTX tx_plain) [0, 1]
            (sim_world heap_plain) = Some (w2, cs2, r2)"
    by (cases "signTransaction sim_prims (sim_ledger None) (MTX tx_plain) [0, 1]
            (sim_world heap_plain)") auto
  from priming_pass_once[OF run2] plain_no_witness run2
  have "\<exists>w' cs r.
      signTransaction sim_prims (sim_ledger None) (MTX tx_plain) [0, 1] (sim_world heap_plain)
        = Some (w', cs, r)
    \<and> \<not> any_witness (heap (sim_world heap_plain)) [0, 1]
    \<and> filter is_hashTransactionStart (map fst cs) = []"
    by blast
  with first show ?thesis by blast
qed

section \<open>Trusted inputs of a run\<close>

text \<open>
  C6. The \<open>getTrustedInput\<close> calls of a run are, in order, a prefix of one call per
  descriptor with \<open>witness = false\<close> and no redeem script, each with that descriptor's
  previous transaction and output index: a witness descriptor or one with a redeem
  script never causes a call. A run that gets past the collection (it returns the
  transaction, or issues a hashing call) has made exactly those calls, once per such
  descriptor, \<open>toKey()\<close> gives a key for each of them, and every
  \<open>hashTransactionStartNullify\<close> call is passed the tokens answered, each stored under
  the key of its descriptor (where two of them have the same key, the later token).
\<close>

theorem trusted_input_once_per_plain_descriptor:
  assumes "signTransaction P L (MTX tx) ledgerInputs w = Some (w', cs, r)"
  shows "prefix (trusted_calls cs) (wanted_calls (heap w) ledgerInputs)
       \<and> ((\<exists>t. r = Inr t) \<or> list_ex (\<lambda>c. is_hashTransactionStart c \<or> is_per_input c) (map fst cs) \<longrightarrow>
             trusted_calls cs = wanted_calls (heap w) ledgerInputs
           \<and> length (tokens cs) = length (plain_inputs (heap w) ledgerInputs)
           \<and> list_all (\<lambda>li. has_key P (heap w li)) (plain_inputs (heap w) ledgerInputs))
       \<and> (\<forall>c ti. c \<in> set (map fst cs) \<and> nullify_trusted c = Some ti \<longrightarrow>
             ti = cached_tokens P (heap w) ledgerInputs (tokens cs))"
proof -
  from assms obtain w0 where
    inner: "inner_signTransaction P L (MTX tx) ledgerInputs (w\<lparr>txlock := True\<rparr>) = (w0, cs, r)"
    by (rule signTransaction_inner)
  from inner show ?thesis
  proof (cases rule: inner_phases)
    case (keys e)
    note k = onlyD[OF only_updatePublicKeys keys(1)]
    from k have "\<forall>c \<in> set (map fst cs). nullify_trusted c = None
                   \<and> \<not> is_hashTransactionStart c \<and> \<not> is_per_input c"
      by (auto simp: list_all_iff dest: kind_getPublicKey)
    with quiet_keys[OF k] keys(2) show ?thesis
      by (auto simp: list_ex_iff)
  next
    case (trusted w1 cs1 cs2 e)
    note k = onlyD[OF only_updatePublicKeys trusted(1)]
    note t = onlyD[OF only_collectTrustedInputs trusted(2)]
    from keepsD[OF statics_updatePublicKeys trusted(1)]
    have s1: "statics P w1 = statics P w" by (simp add: entry_statics)
    from k t trusted(3) have "\<forall>c \<in> set (map fst cs). nullify_trusted c = None
                   \<and> \<not> is_hashTransactionStart c \<and> \<not> is_per_input c"
      by (auto simp: list_all_iff dest: kind_getPublicKey kind_getTrustedInput)
    moreover from collect_spec[OF trusted(2)] quiet_keys[OF k] trusted(3)
    have "prefix (trusted_calls cs) (wanted_calls (heap w) ledgerInputs)"
      by (simp add: statics_wanted_calls[OF s1])
    ultimately show ?thesis using trusted(4)
      by (auto simp: list_ex_iff)
  next
    case (prime w1 cs1 w2 cs2 ti hw cs3 e)
    note k = onlyD[OF only_updatePublicKeys prime(1)]
    note t = onlyD[OF only_collectTrustedInputs prime(2)]
    from keepsD[OF statics_updatePublicKeys prime(1)]
    have s1: "statics P w1 = statics P w" by (simp add: entry_statics)
    from k t quiet_prime[OF prime(3)] prime(4)
    have "\<forall>c \<in> set (map fst cs). nullify_trusted c = None"
      by (auto simp: list_all_iff dest: kind_getPublicKey kind_getTrustedInput)
    moreover from collect_spec[OF prime(2)] quiet_keys[OF k] quiet_prime[OF prime(3)] prime(4)
    have "trusted_calls cs = wanted_calls (heap w) ledgerInputs"
      and "length (tokens cs) = length (plain_inputs (heap w) ledgerInputs)"
      and "list_all (\<lambda>li. has_key P (heap w li)) (plain_inputs (heap w) ledgerInputs)"
      by (simp_all add: statics_wanted_calls[OF s1] statics_plain_inputs[OF s1]
          staticsD(8)[OF s1])
    ultimately show ?thesis by auto
  next
    case (inputs w1 cs1 w2 cs2 ti hw w3 cs3 newtx w4 cs4)
    note k = onlyD[OF only_updatePublicKeys inputs(1)]
    note t = onlyD[OF only_collectTrustedInputs inputs(2)]
    note p = onlyD[OF only_signInputs inputs(4)]
    note q = onlyD[OF same_trusted_signInputs inputs(4)]
    from keepsD[OF statics_updatePublicKeys inputs(1)]
    have s1: "statics P w1 = statics P w" by (simp add: entry_statics)
    from collect_spec[OF inputs(2)] quiet_keys[OF k] quiet_prime[OF inputs(3)]
      quiet_per_input[OF p] inputs(5)
    have eq: "trusted_calls cs = wanted_calls (heap w) ledgerInputs"
      and len: "length (tokens cs) = length (plain_inputs (heap w) ledgerInputs)"
      and hk: "list_all (\<lambda>li. has_key P (heap w li)) (plain_inputs (heap w) ledgerInputs)"
      and ti: "ti = cached_tokens P (heap w) ledgerInputs (tokens cs)"
      by (simp_all add: statics_wanted_calls[OF s1] statics_plain_inputs[OF s1]
          statics_cached_tokens[OF s1] staticsD(8)[OF s1])
    have n1: "\<forall>c \<in> set (map fst cs1). nullify_trusted c = None"
      using k by (auto simp: list_all_iff dest: kind_getPublicKey)
    have n2: "\<forall>c \<in> set (map fst cs2). nullify_trusted c = None"
      using t by (auto simp: list_all_iff dest: kind_getTrustedInput)
    have n3: "\<forall>c \<in> set (map fst cs3). nullify_trusted c = None"
      using quiet_prime[OF inputs(3)] by (simp add: list_all_iff)
    have n4: "\<forall>c \<in> set (map fst cs4). \<forall>m. nullify_trusted c = Some m \<longrightarrow> m = ti"
      using q by (simp add: list_all_iff)
    from n1 n2 n3 n4 inputs(5)
    have "\<forall>c m. c \<in> set (map fst cs) \<and> nullify_trusted c = Some m \<longrightarrow> m = ti"
      by fastforce
    with eq len hk ti show ?thesis by auto
  qed
qed

text \<open>The run with two plain descriptors.\<close>

theorem trusted_input_once_per_plain_descriptor_witness:
  "\<exists>w' cs t.
      signTransaction sim_prims (sim_ledger None) (MTX tx_plain) [0, 1] (sim_world heap_plain)
        = Some (w', cs, Inr t)
    \<and> trusted_calls cs = wanted_calls (heap (sim_world heap_plain)) [0, 1]
    \<and> trusted_calls cs = [(Some prev_a, 0), (Some prev_b, 1)]
    \<and> tokens cs = [[50, 0], [50, 1]]
    \<and> list_ex (\<lambda>c. \<not> Option.is_none (nullify_trusted c)) (map fst cs)
    \<and> (\<forall>c ti. c \<in> set (map fst cs) \<and> nullify_trusted c = Some ti \<longrightarrow>
          ti = cached_tokens sim_prims (heap (sim_world heap_plain)) [0, 1] (tokens cs)
        \<and> ti ''ai'' = Some [50, 0] \<and> ti ''bii'' = Some [50, 1])"
proof -
  from run_plain_obs obtain w' cs t where
    run: "signTransaction sim_prims (sim_ledger None) (MTX tx_plain) [0, 1]
            (sim_world heap_plain) = Some (w', cs, Inr t)"
    and tc: "trusted_calls cs = [(Some prev_a, 0), (Some prev_b, 1)]"
    and tk: "tokens cs = [[50, 0], [50, 1]]"
    and ex: "list_ex (\<lambda>c. \<not> Option.is_none (nullify_trusted c)) (map fst cs)"
    by (cases "signTransaction sim_prims (sim_ledger None) (MTX tx_plain) [0, 1]
            (sim_world heap_plain)")
       (auto simp: calls_of_def result_of_def not_isl_iff)
  from trusted_input_once_per_plain_descriptor[OF run]
  have eq: "trusted_calls cs = wanted_calls (heap (sim_world heap_plain)) [0, 1]"
    and cached: "\<forall>c ti. c \<in> set (map fst cs) \<and> nullify_trusted c = Some ti \<longrightarrow>
          ti = cached_tokens sim_prims (heap (sim_world heap_plain)) [0, 1] (tokens cs)"
    by blast+
  from cached plain_cached tk
  have "\<forall>c ti. c \<in> set (map fst cs) \<and> nullify_trusted c = Some ti \<longrightarrow>
          ti = cached_tokens sim_prims (heap (sim_world heap_plain)) [0, 1] (tokens cs)
        \<and> ti ''ai'' = Some [50, 0] \<and> ti ''bii'' = Some [50, 1]"
    by (simp only:) blast
  with run tc tk ex eq show ?thesis by blast
qed

section \<open>A signature that cannot be folded\<close>










end
